theory Spec2Isabelle
  imports Complex_Main "HOL-Library.Sublist"
begin

section \<open>Python strings\<close>

text \<open>
  Strings are byte strings restricted to ASCII, which is what the command tokens, the
  topics and the state names of \<^verbatim>\<open>bisecur2mqtt.py\<close> are made of.
  \<^verbatim>\<open>sub in s\<close> on two strings is the contiguous-substring test.
\<close>

definition str_in :: "string \<Rightarrow> string \<Rightarrow> bool" where
  "str_in sub s = sublist sub s"

definition lower_char :: "char \<Rightarrow> char" where
  "lower_char c =
     (case map_of (zip ''ABCDEFGHIJKLMNOPQRSTUVWXYZ'' ''abcdefghijklmnopqrstuvwxyz'') c of
        Some d \<Rightarrow> d
      | None \<Rightarrow> c)"

definition lower :: "string \<Rightarrow> string" where
  "lower s = map lower_char s"

definition is_space :: "char \<Rightarrow> bool" where
  "is_space c = (c \<in> set [CHR '' '', CHR 0x09, CHR 0x0A, CHR 0x0B, CHR 0x0C, CHR 0x0D,
                           CHR 0x1C, CHR 0x1D, CHR 0x1E, CHR 0x1F])"

definition is_alpha :: "char \<Rightarrow> bool" where
  "is_alpha c = (c \<in> set ''abcdefghijklmnopqrstuvwxyzABCDEFGHIJKLMNOPQRSTUVWXYZ'')"

definition is_digit :: "char \<Rightarrow> bool" where
  "is_digit c = (c \<in> set ''0123456789'')"

definition strip :: "string \<Rightarrow> string" where
  "strip s = rev (dropWhile is_space (rev (dropWhile is_space s)))"

text \<open>\<^verbatim>\<open>s.replace(old, new)\<close> for a non-empty \<^verbatim>\<open>old\<close> (the source only replaces
  \<^verbatim>\<open>"open"\<close> and \<^verbatim>\<open>"close"\<close>): leftmost occurrences, not overlapping.\<close>

fun replace :: "string \<Rightarrow> string \<Rightarrow> string \<Rightarrow> string" where
  "replace old new [] = []"
| "replace old new (c # cs) =
     (if old \<noteq> [] \<and> prefix old (c # cs)
      then new @ replace old new (drop (length old - 1) cs)
      else c # replace old new cs)"

text \<open>\<^verbatim>\<open>s.split(sep)\<close> for a one-character separator.\<close>

fun split_on :: "char \<Rightarrow> string \<Rightarrow> string list" where
  "split_on sep [] = [[]]"
| "split_on sep (c # cs) =
     (if c = sep then [] # split_on sep cs
      else (case split_on sep cs of
              p # ps \<Rightarrow> (c # p) # ps
            | [] \<Rightarrow> [[c]]))"

text \<open>\<^verbatim>\<open>str(n)\<close> and \<^verbatim>\<open>int(s)\<close> on ASCII text. \<^verbatim>\<open>int\<close> skips the six white space
  characters of C around the number (not the separators 0x1C to 0x1F, which
  \<^verbatim>\<open>str.strip\<close> removes), takes one sign, and reads decimal digits that may be grouped by
  single underscores; any other text raises \<^verbatim>\<open>ValueError\<close>, which is the value \<open>None\<close>
  here. (The limit that recent interpreters put on the number of digits is left out.)\<close>

function str_nat :: "nat \<Rightarrow> string" where
  "str_nat n =
     (if n < 10 then [''0123456789'' ! n]
      else str_nat (n div 10) @ [''0123456789'' ! (n mod 10)])"
  by pat_completeness auto
termination
  by (relation "measure id") auto

declare str_nat.simps [simp del]

definition str_int :: "int \<Rightarrow> string" where
  "str_int i = (if i < 0 then CHR ''-'' # str_nat (nat (- i)) else str_nat (nat i))"

definition digit_val :: "char \<Rightarrow> nat" where
  "digit_val c = length (takeWhile (\<lambda>d. d \<noteq> c) ''0123456789'')"

definition is_int_space :: "char \<Rightarrow> bool" where
  "is_int_space c = (c \<in> set [CHR '' '', CHR 0x09, CHR 0x0A, CHR 0x0B, CHR 0x0C, CHR 0x0D])"

fun grouped_digits :: "string \<Rightarrow> bool" where
  "grouped_digits [] = False"
| "grouped_digits [c] = is_digit c"
| "grouped_digits (c # u # cs) =
     (is_digit c \<and> (if u = CHR ''_'' then grouped_digits cs else grouped_digits (u # cs)))"

definition py_int :: "string \<Rightarrow> int option" where
  "py_int s =
     (let t = rev (dropWhile is_int_space (rev (dropWhile is_int_space s)));
          neg = (t \<noteq> [] \<and> hd t = CHR ''-'');
          ds = (if t \<noteq> [] \<and> (hd t = CHR ''-'' \<or> hd t = CHR ''+'') then tl t else t)
      in if grouped_digits ds
         then Some ((if neg then - 1 else 1)
                    * int (foldl (\<lambda>a c. 10 * a + digit_val c) 0 (filter is_digit ds)))
         else None)"

definition str_opt :: "string option \<Rightarrow> string" where
  "str_opt v = (case v of None \<Rightarrow> ''None'' | Some s \<Rightarrow> s)"

section \<open>The gateway client and its responses\<close>

text \<open>
  The protocol client (\<^verbatim>\<open>pysecur3\<close>) is outside the repository. The program looks at a
  response through \<^verbatim>\<open>resp.payload\<close>, \<^verbatim>\<open>resp.payload.command_id\<close>,
  \<^verbatim>\<open>resp.payload.command\<close> and, guarded by \<^verbatim>\<open>hasattr\<close>, the command's
  \<^verbatim>\<open>percent_open\<close> and \<^verbatim>\<open>error_code\<close>; \<open>None\<close> in a field is an absent attribute
  (for \<^verbatim>\<open>payload\<close> and \<^verbatim>\<open>command\<close>: the value \<^verbatim>\<open>None\<close>, which has no attribute either).
\<close>

datatype mcp_error_code = Error_code (ec_value: int) (ec_name: string)

record command =
  percent_open :: "int option"
  error_code :: "mcp_error_code option"
  gw_version :: "string option"

record mcp =
  command_id :: int
  command :: "command option"
  groups :: "string option"

record response =
  payload :: "mcp option"

text \<open>The client object \<^verbatim>\<open>CLI\<close>: the two attributes the program reads.\<close>

record client =
  last_error :: "mcp_error_code option"
  token :: int

text \<open>
  What one call into the client library does is the environment's choice: it returns a
  response (or \<^verbatim>\<open>None\<close>) or raises an exception with a message, and leaves the client
  in some state. The environment is a function from the number of calls made so far.
\<close>

datatype outcome = Returns "response option" client | Raises string client

datatype request =
    Get_transition int
  | Set_state int
  | Get_gw_version
  | Jcmp_get_groups
  | New_client
  | Login
  | Logout

record env =
  gw :: "nat \<Rightarrow> outcome"
  alive :: "nat \<Rightarrow> bool"
  bisecur_ip :: "string option"
  bisecur_mac :: string

section \<open>Values, events and the global state\<close>

datatype pyval = PNone | PStr string | PInt int | PResp response | PPair pyval pyval

fun truthy :: "pyval \<Rightarrow> bool" where
  "truthy PNone = False"
| "truthy (PStr s) = (s \<noteq> [])"
| "truthy (PInt i) = (i \<noteq> 0)"
| "truthy (PResp r) = True"
| "truthy (PPair a b) = True"

text \<open>\<^verbatim>\<open>hasattr(v, name)\<close> for the data attributes of the values above.\<close>

fun hasattr :: "pyval \<Rightarrow> string \<Rightarrow> bool" where
  "hasattr (PResp r) a = (a = ''payload'')"
| "hasattr v a = False"

text \<open>The error record before \<^verbatim>\<open>json.dumps\<close>: \<open>None\<close> as code is the string
  \<^verbatim>\<open>"Unknown"\<close>; the text is a name or \<^verbatim>\<open>str(resp)\<close> of a value.\<close>

datatype error_text = Name string | Str_of pyval

record error_obj =
  error_code_field :: "int option"
  error_field :: error_text

datatype published = Payload pyval | Json_error error_obj | Json_text string | Now

datatype level = INFO | WARNING | ERROR

datatype event =
    Publish string published
  | Log level string
  | Sleep rat
  | Gateway request
  | Thread_start int string string

datatype exn = Exception string | SystemExit int

record world =
  CLI :: client
  LAST_DOOR_STATE :: "string option"
  POS_TRACKING_THREAD :: bool
  DO_EXIT_THREAD :: bool
  MQTT_CLIENT_SUB :: bool
  gw_calls :: nat
  alive_polls :: nat
  trace :: "event list"

definition MQTT_TOPIC_BASE :: string where
  "MQTT_TOPIC_BASE = ''bisecur2mqtt''"

definition MQTT_COMMAND_SUBTOPIC :: string where
  "MQTT_COMMAND_SUBTOPIC = ''send_command''"

definition MAX_RETRIES :: nat where
  "MAX_RETRIES = 10"

definition emit :: "event \<Rightarrow> world \<Rightarrow> world" where
  "emit e w = w\<lparr>trace := trace w @ [e]\<rparr>"

text \<open>\<^verbatim>\<open>log.info\<close>, \<^verbatim>\<open>log.warning\<close> and \<^verbatim>\<open>log.error\<close>. (\<^verbatim>\<open>DEBUG\<close> is \<^verbatim>\<open>False\<close>, so
  \<^verbatim>\<open>log.debug\<close> writes nothing.) A message that formats a response, an exception object or
  the topic is kept up to that value.\<close>

definition log_line :: "level \<Rightarrow> string \<Rightarrow> world \<Rightarrow> world" where
  "log_line l msg w = emit (Log l msg) w"

definition sleep :: "rat \<Rightarrow> world \<Rightarrow> world" where
  "sleep d w = emit (Sleep d) w"

text \<open>One call into the client library: the request is recorded, the environment's next
  outcome is taken, and the client is in the state the outcome says.\<close>

definition call :: "env \<Rightarrow> request \<Rightarrow> world \<Rightarrow> (string + response option) \<times> world" where
  "call e req w =
     (let w' = (emit (Gateway req) w)\<lparr>gw_calls := Suc (gw_calls w)\<rparr> in
      case gw e (gw_calls w) of
        Returns r c \<Rightarrow> (Inr r, w'\<lparr>CLI := c\<rparr>)
      | Raises m c \<Rightarrow> (Inl m, w'\<lparr>CLI := c\<rparr>))"

section \<open>publish_to_mqtt\<close>

text \<open>With \<^verbatim>\<open>MQTT_CLIENT_SUB\<close> set, the payload goes to \<^verbatim>\<open>{topic_base}/{topic}\<close> (unless
  \<^verbatim>\<open>ts_only\<close>) and the time to \<^verbatim>\<open>{topic_base}/{topic}_ts\<close>; without it a warning is
  logged. The payload is kept as the value handed over (the function sends \<^verbatim>\<open>str\<close> of it).\<close>

definition publish_to_mqtt :: "string \<Rightarrow> published \<Rightarrow> bool \<Rightarrow> world \<Rightarrow> world" where
  "publish_to_mqtt topic pl ts_only w =
     (if MQTT_CLIENT_SUB w then
        emit (Publish (MQTT_TOPIC_BASE @ ''/'' @ topic @ ''_ts'') Now)
          (if \<not> ts_only then emit (Publish (MQTT_TOPIC_BASE @ ''/'' @ topic) pl) w else w)
      else log_line WARNING ''Ignoring publish to broker as 'MQTT_CLIENT_PUB' not initalised'' w)"

section \<open>check_mcp_error\<close>

definition embedded_error :: "pyval \<Rightarrow> mcp_error_code option" where
  "embedded_error v =
     (case v of
        PResp r \<Rightarrow>
          (case payload r of
             Some p \<Rightarrow> (case command p of Some c \<Rightarrow> error_code c | None \<Rightarrow> None)
           | None \<Rightarrow> None)
      | _ \<Rightarrow> None)"

definition resp_command_id :: "pyval \<Rightarrow> int option" where
  "resp_command_id v =
     (case v of
        PResp r \<Rightarrow> (case payload r of Some p \<Rightarrow> Some (command_id p) | None \<Rightarrow> None)
      | _ \<Rightarrow> None)"

definition check_mcp_error :: "pyval \<Rightarrow> world \<Rightarrow> error_obj option \<times> world" where
  "check_mcp_error resp w =
     (if last_error (CLI w) \<noteq> None then
        (let w1 = log_line ERROR ''--- 1. CLI.last_error'' w;
             obj = (case embedded_error resp of
                      Some ec \<Rightarrow>
                        \<lparr>error_code_field = Some (ec_value ec), error_field = Name (ec_name ec)\<rparr>
                    | None \<Rightarrow>
                        \<lparr>error_code_field = None,
                         error_field = (if truthy resp then Str_of resp else Name ''Unknown error'')\<rparr>)
         in (None, publish_to_mqtt (MQTT_COMMAND_SUBTOPIC @ ''/error'') (Json_error obj) False w1))
      else if truthy resp \<and> hasattr resp ''resp.payload'' \<and> hasattr resp ''resp.payload.command_id''
              \<and> resp_command_id resp = Some 1 \<and> embedded_error resp \<noteq> None then
        (let ec = the (embedded_error resp);
             w1 = log_line ERROR ''--- 2. CLI.last_error'' (log_line ERROR ''MCP error occurred'' w);
             obj = \<lparr>error_code_field = Some (ec_value ec), error_field = Name (ec_name ec)\<rparr>
         in (Some obj, publish_to_mqtt (MQTT_COMMAND_SUBTOPIC @ ''/error'') (Json_error obj) False w1))
      else (None, publish_to_mqtt (MQTT_COMMAND_SUBTOPIC @ ''/error'') (Payload (PStr [])) False w))"

section \<open>Logging in and (re)initialising the gateway session\<close>

definition do_gw_login :: "env \<Rightarrow> world \<Rightarrow> (exn + int option) \<times> world" where
  "do_gw_login e w =
     (case call e Login w of
        (Inl m, w1) \<Rightarrow> (Inl (Exception m), w1)
      | (Inr r, w1) \<Rightarrow>
          if token (CLI w1) \<noteq> 0
          then (Inr (Some (token (CLI w1))), log_line INFO ''INIT: User logged in to Bisecur Gateway'' w1)
          else (Inr None, log_line WARNING ''INIT: Bisecur Gateway login failed. Exiting...'' w1))"

text \<open>\<^verbatim>\<open>init_bisecur_gw\<close>: the client object always carries \<^verbatim>\<open>last_error\<close> (the program
  reads it unguarded), so the guard \<^verbatim>\<open>not hasattr(CLI, "last_error")\<close> of the logout is
  false and \<open>Logout\<close> is never requested here. Building the client
  (\<^verbatim>\<open>MCPClient(...)\<close>, with \<^verbatim>\<open>bytes.fromhex\<close> of the configured addresses) is the request
  \<open>New_client\<close>, which may raise. \<^verbatim>\<open>sys.exit(2)\<close> is the value \<open>Inl (SystemExit 2)\<close>.\<close>

definition init_bisecur_gw :: "env \<Rightarrow> bool \<Rightarrow> world \<Rightarrow> (exn + int) \<times> world" where
  "init_bisecur_gw e is_restart w =
     (if bisecur_ip e = None \<or> bisecur_ip e = Some [] \<or> bisecur_mac e = [] then
        (Inl (SystemExit 2),
         log_line ERROR ''ERROR: bisecur Gateway IP and MAC addresses must be specified in the config file'' w)
      else
        (case call e New_client w of
           (Inl m, w1) \<Rightarrow> (Inl (Exception m), w1)
         | (Inr r, w1) \<Rightarrow>
             (case do_gw_login e w1 of
                (Inl x, w2) \<Rightarrow> (Inl x, w2)
              | (Inr None, w2) \<Rightarrow> (Inl (SystemExit 2), w2)
              | (Inr (Some t), w2) \<Rightarrow> (Inr t, w2))))"

definition check_broken_pipe :: "env \<Rightarrow> string \<Rightarrow> world \<Rightarrow> (exn + bool) \<times> world" where
  "check_broken_pipe e err_msg w =
     (if str_in ''errno 32'' err_msg \<or> str_in ''broken pipe'' err_msg then
        (case init_bisecur_gw e True (log_line ERROR ''ERROR: Restarting due to broken pipe'' w) of
           (Inl x, w1) \<Rightarrow> (Inl x, w1)
         | (Inr t, w1) \<Rightarrow> (Inr True, w1))
      else (Inr False, w))"

section \<open>get_door_status\<close>

definition percent_of :: "response option \<Rightarrow> int option" where
  "percent_of resp =
     (case resp of
        Some r \<Rightarrow>
          (case payload r of
             Some p \<Rightarrow> (case command p of Some c \<Rightarrow> percent_open c | None \<Rightarrow> None)
           | None \<Rightarrow> None)
      | None \<Rightarrow> None)"

text \<open>The body of the \<^verbatim>\<open>try\<close> once \<^verbatim>\<open>CLI.get_transition\<close> has returned.\<close>

definition get_door_status_read ::
  "int \<Rightarrow> response option \<Rightarrow> world \<Rightarrow> (response option \<times> int \<times> string option) \<times> world" where
  "get_door_status_read set_door resp w =
     (let (position, state, w1) =
            (case percent_of resp of
               Some p \<Rightarrow>
                 if p = 0 then
                   (p, Some ''closed'',
                    log_line INFO (''---> Garage door '' @ str_int set_door @ '' is CLOSED <----'') w)
                 else if p = 100 then
                   (p, Some ''open'',
                    log_line INFO (''---> Garage door '' @ str_int set_door @ '' is OPEN <----'') w)
                 else
                   (p, None,
                    log_line INFO (''Garage door '' @ str_int set_door @ '' is '' @ str_int p @ ''% OPEN'') w)
             | None \<Rightarrow>
                 (- 1, None,
                  log_line WARNING ''get_transition response has no 'percentage_open' attribute'' w));
          w2 = log_line INFO (''posting position '' @ str_int position @ '' and state '' @ str_opt state
                          @ '' to MQTT....'') w1;
          w3 = publish_to_mqtt (''garage_door/'' @ str_int set_door @ ''/position'')
                 (Payload (PInt position)) False w2;
          w4 = (case state of
                  Some st \<Rightarrow>
                    publish_to_mqtt (''garage_door/'' @ str_int set_door @ ''/state'')
                      (Payload (PStr st)) False w3
                | None \<Rightarrow> w3)
      in ((resp, position, state), w4))"

function get_door_status_loop ::
  "env \<Rightarrow> int \<Rightarrow> nat \<Rightarrow> world \<Rightarrow> (exn + (response option \<times> int \<times> string option)) \<times> world" where
  "get_door_status_loop e set_door retries w =
     (if retries < MAX_RETRIES then
        (case call e (Get_transition set_door) w of
           (Inr resp, w1) \<Rightarrow>
             (case get_door_status_read set_door resp w1 of (res, w2) \<Rightarrow> (Inr res, w2))
         | (Inl ex, w1) \<Rightarrow>
             (case check_broken_pipe e (lower ex) (log_line ERROR (''ERROR: '' @ ex) w1) of
                (Inl x, w2) \<Rightarrow> (Inl x, w2)
              | (Inr True, w2) \<Rightarrow> (Inr (None, - 1, None), w2)
              | (Inr False, w2) \<Rightarrow>
                  if last_error (CLI w2) \<noteq> None \<and> retries < 5
                  then get_door_status_loop e set_door (Suc retries)
                         (sleep (8 / 10) (log_line ERROR ''[ERROR] CLI error found'' w2))
                  else (Inr (None, - 1, None), w2)))
      else (Inr (None, - 1, None), w))"
  by pat_completeness auto
termination
  by (relation "measure (\<lambda>(e, set_door, retries, w). MAX_RETRIES - retries)") auto

declare get_door_status_loop.simps [simp del]

definition get_door_status ::
  "env \<Rightarrow> string \<Rightarrow> world \<Rightarrow> (exn + (response option \<times> int \<times> string option)) \<times> world" where
  "get_door_status e set_door w =
     (case py_int set_door of
        None \<Rightarrow> (Inl (Exception ''invalid literal for int() with base 10''), w)
      | Some d \<Rightarrow> get_door_status_loop e d 0 w)"

section \<open>do_door_action\<close>

text \<open>
  The position tracking thread belongs to the environment: \<open>alive e k\<close> is what the
  \<open>k\<close>-th call of \<^verbatim>\<open>POS_TRACKING_THREAD.is_alive()\<close> answers. \<open>observe\<close> is a call
  whose answer is only formatted into a debug message.
\<close>

definition observe :: "world \<Rightarrow> world" where
  "observe w = w\<lparr>alive_polls := Suc (alive_polls w)\<rparr>"

text \<open>The loop \<^verbatim>\<open>while POS_TRACKING_THREAD.is_alive() and counter < 15\<close> with its body
  \<^verbatim>\<open>time.sleep(.5); counter += 0.5\<close> (the debug message of the body asks
  \<^verbatim>\<open>is_alive()\<close> once more).\<close>

function wait_for_thread :: "env \<Rightarrow> rat \<Rightarrow> world \<Rightarrow> world" where
  "wait_for_thread e counter w =
     (if alive e (alive_polls w) \<and> counter < 15
      then wait_for_thread e (counter + 1 / 2) (sleep (1 / 2) (observe (observe w)))
      else observe w)"
  by pat_completeness auto
termination
proof (relation "measure (\<lambda>(e, counter, w). nat \<lceil>(15 - counter) * 2\<rceil>)")
  show "wf (measure (\<lambda>(e, counter, w). nat \<lceil>(15 - counter) * 2\<rceil>))"
    by simp
next
  fix e :: env and counter :: rat and w :: world
  assume "alive e (alive_polls w) \<and> counter < 15"
  then have pos: "0 < (15 - counter) * 2"
    by simp
  have "\<lceil>(15 - (counter + 1 / 2)) * 2\<rceil> = \<lceil>(15 - counter) * 2 - 1\<rceil>"
    by (simp add: algebra_simps)
  also have "\<dots> = \<lceil>(15 - counter) * 2\<rceil> - 1"
    by (rule ceiling_diff_one)
  finally have step: "\<lceil>(15 - (counter + 1 / 2)) * 2\<rceil> = \<lceil>(15 - counter) * 2\<rceil> - 1" .
  from pos have "0 < \<lceil>(15 - counter) * 2\<rceil>"
    by (simp add: ceiling_less_iff)
  with step show "((e, counter + 1 / 2, sleep (1 / 2) (observe (observe w))), (e, counter, w))
      \<in> measure (\<lambda>(e, counter, w). nat \<lceil>(15 - counter) * 2\<rceil>)"
    by simp
qed

declare wait_for_thread.simps [simp del]

text \<open>Lines 261 to 279: supersede a live tracking thread, then start the new one with
  \<^verbatim>\<open>args=(current_pos, action, set_door)\<close>.\<close>

definition start_tracking :: "env \<Rightarrow> int \<Rightarrow> string \<Rightarrow> string \<Rightarrow> world \<Rightarrow> world" where
  "start_tracking e current_pos action set_door w =
     (let w1 = (if POS_TRACKING_THREAD w then
                  (if alive e (alive_polls w)
                   then wait_for_thread e 0 (sleep (1 / 10) ((observe w)\<lparr>DO_EXIT_THREAD := True\<rparr>))
                   else observe w)
                else w);
          w2 = (if POS_TRACKING_THREAD w1 then observe w1 else w1)
      in emit (Thread_start current_pos action set_door) (w2\<lparr>POS_TRACKING_THREAD := True\<rparr>))"

text \<open>The text of the \<^verbatim>\<open>AttributeError\<close> for an attribute read of \<^verbatim>\<open>None\<close>.\<close>

definition no_attribute :: "string \<Rightarrow> string" where
  "no_attribute a =
     [CHR 0x27] @ ''NoneType'' @ [CHR 0x27] @ '' object has no attribute '' @ [CHR 0x27] @ a
       @ [CHR 0x27]"

definition opt_resp :: "response option \<Rightarrow> pyval" where
  "opt_resp r = (case r of None \<Rightarrow> PNone | Some x \<Rightarrow> PResp x)"

text \<open>The handler \<^verbatim>\<open>except Exception as ex\<close> of \<^verbatim>\<open>do_door_action\<close>, with \<^verbatim>\<open>port\<close> bound.\<close>

definition door_action_failed :: "env \<Rightarrow> string \<Rightarrow> world \<Rightarrow> (exn + pyval) \<times> world" where
  "door_action_failed e ex w =
     (case check_broken_pipe e (lower ex)
             (log_line ERROR ''action, port, value'' (log_line ERROR (''ERROR: '' @ ex) w)) of
        (Inl x, w1) \<Rightarrow> (Inl x, w1)
      | (Inr b, w1) \<Rightarrow> (Inr PNone, w1))"

text \<open>Lines 253 to 288. When \<^verbatim>\<open>int(set_door)\<close> raises, the handler's second message
  formats the unbound \<^verbatim>\<open>port\<close> and raises in its turn. Reading \<^verbatim>\<open>.payload\<close> of
  \<^verbatim>\<open>None\<close>, or \<^verbatim>\<open>.command\<close> of a \<^verbatim>\<open>None\<close> payload, raises \<^verbatim>\<open>AttributeError\<close> inside the
  \<^verbatim>\<open>try\<close>.\<close>

definition do_door_action_send :: "env \<Rightarrow> string \<Rightarrow> string \<Rightarrow> world \<Rightarrow> (exn + pyval) \<times> world" where
  "do_door_action_send e action set_door w =
     (if str_in action ''impulse up down partial light stop'' then
        (case py_int set_door of
           None \<Rightarrow>
             (Inl (Exception ''local variable 'port' referenced before assignment''),
              log_line ERROR ''ERROR: invalid literal for int() with base 10'' w)
         | Some port \<Rightarrow>
             (case call e (Set_state port) w of
                (Inl ex, w1) \<Rightarrow> door_action_failed e ex w1
              | (Inr action_resp, w1) \<Rightarrow>
                  (case check_mcp_error (opt_resp action_resp) w1 of
                     (Some err, w2) \<Rightarrow> (Inr (opt_resp action_resp), w2)
                   | (None, w2) \<Rightarrow>
                       (case action_resp of
                          None \<Rightarrow>
                            door_action_failed e (no_attribute ''payload'') w2
                        | Some r \<Rightarrow>
                            (case payload r of
                               None \<Rightarrow>
                                 door_action_failed e (no_attribute ''command'') w2
                             | Some p \<Rightarrow>
                                 (Inr (PResp r),
                                  start_tracking e
                                    (case percent_of action_resp of Some x \<Rightarrow> x | None \<Rightarrow> - 1)
                                    action set_door w2))))))
      else (Inr PNone, log_line ERROR ''Port is not defined in'' w))"

definition do_door_action :: "env \<Rightarrow> string \<Rightarrow> string \<Rightarrow> world \<Rightarrow> (exn + pyval) \<times> world" where
  "do_door_action e action set_door w =
     (if action = ''stop'' then
        (if LAST_DOOR_STATE w = Some ''opening'' then do_door_action_send e ''down'' set_door w
         else if LAST_DOOR_STATE w = Some ''closing'' then do_door_action_send e ''up'' set_door w
         else
           (let log_msg = ''Ignoring 'stop' command as current door movement direction unknown (LAST_DOOR_STATE is ''
                            @ [CHR 0x27] @ str_opt (LAST_DOOR_STATE w) @ [CHR 0x27] @ '')''
            in (Inr (PStr log_msg), log_line WARNING log_msg w)))
      else do_door_action_send e action set_door w)"

section \<open>track_realtime_door_position\<close>

text \<open>The condition of the \<^verbatim>\<open>while\<close>, on the thread's locals and the shared flag.\<close>

definition track_cond :: "world \<Rightarrow> string \<Rightarrow> string option \<Rightarrow> int \<Rightarrow> int option \<Rightarrow> bool" where
  "track_cond w last_action state current_pos last_pos =
     (\<not> DO_EXIT_THREAD w \<and>
      ((state \<noteq> Some ''open'' \<and> last_action = ''up open'')
       \<or> (state \<noteq> Some ''closed'' \<and> str_in last_action ''down close'')
       \<or> Some current_pos \<noteq> last_pos))"

definition compare_state :: "int \<Rightarrow> int \<Rightarrow> string" where
  "compare_state current_pos last_pos =
     (if current_pos < last_pos then ''closing''
      else if current_pos > last_pos then ''opening''
      else if current_pos = 100 then ''open''
      else if current_pos = 0 then ''closed''
      else ''unknown'')"

text \<open>One pass through the body. The result says whether the body left by \<^verbatim>\<open>break\<close>, and
  gives the locals \<^verbatim>\<open>state\<close>, \<^verbatim>\<open>current_pos\<close> and \<^verbatim>\<open>last_pos\<close>.\<close>

definition track_iteration ::
  "env \<Rightarrow> string \<Rightarrow> int \<Rightarrow> world \<Rightarrow> (exn + (bool \<times> string option \<times> int \<times> int option)) \<times> world" where
  "track_iteration e set_door current_pos w =
     (case get_door_status e set_door (sleep 2 w) of
        (Inl x, w1) \<Rightarrow> (Inl x, w1)
      | (Inr (resp, pos, st), w1) \<Rightarrow>
          (case resp of
             None \<Rightarrow> (Inr (True, st, pos, Some current_pos), w1\<lparr>DO_EXIT_THREAD := True\<rparr>)
           | Some r \<Rightarrow>
               (case check_mcp_error (PResp r) w1 of
                  (Some err, w2) \<Rightarrow> (Inr (False, st, pos, Some current_pos), w2)
                | (None, w2) \<Rightarrow>
                    (Inr (False, Some (compare_state pos current_pos), pos, Some current_pos),
                     publish_to_mqtt (''garage_door/'' @ set_door @ ''/state'')
                       (Payload (PStr (compare_state pos current_pos))) False
                       (publish_to_mqtt (''garage_door/'' @ set_door @ ''/position'')
                          (Payload (PInt pos)) False
                          (w2\<lparr>LAST_DOOR_STATE := Some (compare_state pos current_pos)\<rparr>))))))"

text \<open>The loop may run for ever (a closing door that stalls is polled until somebody
  cancels), so it takes fuel: one unit for each evaluation of the condition, \<open>None\<close> when
  the fuel is used up before the loop is left.\<close>

fun track_loop ::
  "nat \<Rightarrow> env \<Rightarrow> string \<Rightarrow> string \<Rightarrow> string option \<Rightarrow> int \<Rightarrow> int option \<Rightarrow> world
   \<Rightarrow> ((exn + string option) \<times> world) option" where
  "track_loop 0 e last_action set_door state current_pos last_pos w = None"
| "track_loop (Suc n) e last_action set_door state current_pos last_pos w =
     (if track_cond w last_action state current_pos last_pos then
        (case track_iteration e set_door current_pos w of
           (Inl x, w1) \<Rightarrow> Some (Inl x, w1)
         | (Inr (brk, state', pos', last'), w1) \<Rightarrow>
             if brk then Some (Inr state', w1\<lparr>LAST_DOOR_STATE := state'\<rparr>)
             else track_loop n e last_action set_door state' pos' last' w1)
      else Some (Inr state, w\<lparr>LAST_DOOR_STATE := state\<rparr>))"


section \<open>do_command and on_message\<close>

definition get_gw_version :: "env \<Rightarrow> world \<Rightarrow> pyval \<times> world" where
  "get_gw_version e w =
     (case call e Get_gw_version w of
        (Inl m, w1) \<Rightarrow> (PNone, log_line ERROR m w1)
      | (Inr resp, w1) \<Rightarrow>
          (case (case resp of
                   Some r \<Rightarrow>
                     (case payload r of
                        Some p \<Rightarrow> (case command p of Some c \<Rightarrow> gw_version c | None \<Rightarrow> None)
                      | None \<Rightarrow> None)
                 | None \<Rightarrow> None) of
             None \<Rightarrow> (PNone, log_line ERROR ''AttributeError'' w1)
           | Some v \<Rightarrow>
               (PPair (opt_resp resp) (PStr v),
                publish_to_mqtt ''attributes/gw_hw_version'' (Payload (PStr v)) False
                  (log_line INFO (''Gateway HW Version: '' @ v) w1))))"

text \<open>\<^verbatim>\<open>get_ports\<close>: \<open>groups\<close> of the payload is the JSON text of the literal that
  \<^verbatim>\<open>ast.literal_eval(resp.payload.payload.decode("utf-8"))\<close> evaluates to, \<open>None\<close> when any
  step of that raises.\<close>

definition get_ports :: "env \<Rightarrow> world \<Rightarrow> pyval \<times> world" where
  "get_ports e w =
     (case call e Jcmp_get_groups w of
        (Inl m, w1) \<Rightarrow> (PNone, log_line ERROR m w1)
      | (Inr resp, w1) \<Rightarrow>
          (case (case resp of
                   Some r \<Rightarrow> (case payload r of Some p \<Rightarrow> groups p | None \<Rightarrow> None)
                 | None \<Rightarrow> None) of
             None \<Rightarrow> (PNone, log_line ERROR ''AttributeError'' w1)
           | Some js \<Rightarrow>
               (PPair (opt_resp resp) (PStr js),
                publish_to_mqtt ''attributes/user0_ports'' (Json_text js) False
                  (log_line INFO (''Ports for user 0: '' @ js) w1))))"

text \<open>The \<^verbatim>\<open>if\<close>/\<^verbatim>\<open>elif\<close> chain of \<^verbatim>\<open>do_command\<close>, on the lower-cased, stripped token.\<close>

definition do_command_branch :: "env \<Rightarrow> string \<Rightarrow> string \<Rightarrow> world \<Rightarrow> (exn + pyval) \<times> world" where
  "do_command_branch e cmd set_door w =
     (if str_in cmd ''get_door_state get_door_position'' then
        (case get_door_status e set_door w of
           (Inl x, w1) \<Rightarrow> (Inl x, w1)
         | (Inr (resp, position, state), w1) \<Rightarrow> (Inr (opt_resp resp), w1))
      else if str_in cmd ''up down open close stop impulse partial light'' then
        do_door_action e (replace ''close'' ''down'' (replace ''open'' ''up'' cmd)) set_door w
      else if cmd = ''get_ports'' then
        (case get_ports e w of (v, w1) \<Rightarrow> (Inr v, w1))
      else if str_in cmd ''get_version get_gw_version'' then
        (case get_gw_version e w of (v, w1) \<Rightarrow> (Inr v, w1))
      else if cmd = ''login'' then
        (case do_gw_login e w of
           (Inl x, w1) \<Rightarrow> (Inl x, w1)
         | (Inr None, w1) \<Rightarrow> (Inr PNone, w1)
         | (Inr (Some t), w1) \<Rightarrow> (Inr (PInt t), w1))
      else if str_in cmd ''sys_restart init_bisecur_gw'' then
        (case init_bisecur_gw e True w of
           (Inl x, w1) \<Rightarrow> (Inl x, w1)
         | (Inr t, w1) \<Rightarrow> (Inr (PInt t), w1))
      else (Inr (PStr (''Command '' @ [CHR 0x27] @ cmd @ '' is not recognised'')), w))"

text \<open>\<^verbatim>\<open>except Exception\<close> does not catch \<^verbatim>\<open>SystemExit\<close>. In the handler \<^verbatim>\<open>resp\<close> is still
  \<^verbatim>\<open>None\<close>: every exception comes out of a branch, before the assignment.\<close>

definition do_command :: "env \<Rightarrow> string \<Rightarrow> string \<Rightarrow> world \<Rightarrow> (exn + unit) \<times> world" where
  "do_command e cmd set_door w =
     (case do_command_branch e (strip (lower cmd)) set_door
             (publish_to_mqtt (MQTT_COMMAND_SUBTOPIC @ ''/command'') Now True w) of
        (Inr resp, w1) \<Rightarrow>
          (Inr (),
           publish_to_mqtt (MQTT_COMMAND_SUBTOPIC @ ''/'' @ set_door @ ''/response'') (Payload resp)
             False (snd (check_mcp_error resp w1)))
      | (Inl (Exception m), w1) \<Rightarrow> (Inr (), snd (check_mcp_error PNone (log_line ERROR m w1)))
      | (Inl (SystemExit n), w1) \<Rightarrow> (Inl (SystemExit n), w1))"

text \<open>\<^verbatim>\<open>re.match(r"^[a-zA-Z]+_\d+$", cmd)\<close> on an ASCII payload: letters, an underscore,
  digits, and then the end of the string or a line feed that ends it. The three character
  classes are disjoint, so the greedy match is the only one. On the decoded text
  \<^verbatim>\<open>\d\<close> also matches the decimal digits of other scripts, which \<^verbatim>\<open>int\<close> reads too;
  payloads outside ASCII are not modelled.\<close>

definition re_match_command :: "string \<Rightarrow> bool" where
  "re_match_command cmd =
     (takeWhile is_alpha cmd \<noteq> [] \<and>
      (case dropWhile is_alpha cmd of
         [] \<Rightarrow> False
       | u # r \<Rightarrow>
           u = CHR ''_'' \<and> takeWhile is_digit r \<noteq> [] \<and>
           (dropWhile is_digit r = [] \<or> dropWhile is_digit r = [CHR 0x0A])))"

definition on_message :: "env \<Rightarrow> string \<Rightarrow> world \<Rightarrow> (exn + unit) \<times> world" where
  "on_message e cmd w =
     (if re_match_command cmd then
        (case split_on (CHR ''_'') cmd of
           action # door # rest \<Rightarrow>
             do_command e action door
               (log_line INFO (''Door: '' @ door @ '' and Command: '' @ action)
                  (log_line INFO (''---> Topic received command '' @ cmd) w))
         | _ \<Rightarrow>
             (Inl (Exception ''list index out of range''),
              log_line INFO (''---> Topic received command '' @ cmd) w))
      else
        (Inr (),
         log_line WARNING (''Received invalid command format: '' @ cmd)
           (log_line INFO (''---> Topic received command '' @ cmd) w)))"

section \<open>Reading a trace\<close>

fun published_on :: "string \<Rightarrow> event list \<Rightarrow> published list" where
  "published_on t [] = []"
| "published_on t (Publish t' pl # evs) =
     (if t' = t then pl # published_on t evs else published_on t evs)"
| "published_on t (ev # evs) = published_on t evs"

fun logged :: "level \<Rightarrow> event list \<Rightarrow> string list" where
  "logged l [] = []"
| "logged l (Log l' m # evs) = (if l' = l then m # logged l evs else logged l evs)"
| "logged l (ev # evs) = logged l evs"

fun requests :: "event list \<Rightarrow> request list" where
  "requests [] = []"
| "requests (Gateway r # evs) = r # requests evs"
| "requests (ev # evs) = requests evs"

fun sleeps :: "event list \<Rightarrow> rat list" where
  "sleeps [] = []"
| "sleeps (Sleep d # evs) = d # sleeps evs"
| "sleeps (ev # evs) = sleeps evs"

text \<open>The status queries for door \<open>d\<close> among the requests, and the state after a
  status query that raised with message \<open>m\<close> and left the client as \<open>c\<close>: the request
  is recorded and the handler has logged the error.\<close>

definition is_query :: "int \<Rightarrow> request \<Rightarrow> bool" where
  "is_query d q = (q = Get_transition d)"

definition after_failure :: "int \<Rightarrow> string \<Rightarrow> client \<Rightarrow> world \<Rightarrow> world" where
  "after_failure d m c w =
     log_line ERROR (''ERROR: '' @ m)
       ((emit (Gateway (Get_transition d)) w)\<lparr>gw_calls := Suc (gw_calls w), CLI := c\<rparr>)"

text \<open>A fault that makes the reader wait and query again: not a broken pipe, and the client
  has \<^verbatim>\<open>last_error\<close> set. \<open>after_faults e d k w\<close> is the state after \<open>k\<close> passes of the
  loop that each met such a fault: per pass the request, the two error messages and the
  sleep of 0.8 seconds.\<close>

definition flagged_fault :: "outcome \<Rightarrow> bool" where
  "flagged_fault out =
     (case out of
        Raises m c \<Rightarrow>
          \<not> str_in ''errno 32'' (lower m) \<and> \<not> str_in ''broken pipe'' (lower m)
          \<and> last_error c \<noteq> None
      | Returns r c \<Rightarrow> False)"

fun after_faults :: "env \<Rightarrow> int \<Rightarrow> nat \<Rightarrow> world \<Rightarrow> world" where
  "after_faults e d 0 w = w"
| "after_faults e d (Suc k) w =
     after_faults e d k
       (case gw e (gw_calls w) of
          Raises m c \<Rightarrow>
            sleep (8 / 10) (log_line ERROR ''[ERROR] CLI error found'' (after_failure d m c w))
        | Returns r c \<Rightarrow> w)"

section \<open>Sample runs\<close>

definition response_with :: "int option \<Rightarrow> mcp_error_code option \<Rightarrow> response" where
  "response_with p ec =
     \<lparr>payload = Some \<lparr>command_id = (if ec = None then 0 else 1),
                       command = Some \<lparr>percent_open = p, error_code = ec, gw_version = None\<rparr>,
                       groups = None\<rparr>\<rparr>"

definition idle_client :: client where
  "idle_client = \<lparr>last_error = None, token = 7\<rparr>"

definition failed_client :: client where
  "failed_client = \<lparr>last_error = Some (Error_code 12 ''PERMISSION_DENIED''), token = 7\<rparr>"

text \<open>A gateway that answers every call with the same outcome, and an old tracking thread
  that is alive for the first \<open>k\<close> looks at it.\<close>

definition fixed_gateway :: "outcome \<Rightarrow> nat \<Rightarrow> env" where
  "fixed_gateway out k =
     \<lparr>gw = (\<lambda>n. out), alive = (\<lambda>n. n < k), bisecur_ip = Some ''192.168.1.20'',
      bisecur_mac = ''AABBCCDDEEFF''\<rparr>"

definition steady_gateway :: "int \<Rightarrow> env" where
  "steady_gateway p = fixed_gateway (Returns (Some (response_with (Some p) None)) idle_client) 0"

text \<open>A gateway whose first \<open>k\<close> calls fail with a time-out and a client that has
  \<^verbatim>\<open>last_error\<close> set, whose next call has the outcome \<open>out\<close>, and which works afterwards.\<close>

definition faulty_gateway :: "nat \<Rightarrow> outcome \<Rightarrow> env" where
  "faulty_gateway k out =
     \<lparr>gw = (\<lambda>n. if n < k then Raises ''timed out'' failed_client
                 else if n = k then out else Returns None idle_client),
      alive = (\<lambda>n. False), bisecur_ip = Some ''192.168.1.20'', bisecur_mac = ''AABBCCDDEEFF''\<rparr>"

definition first_world :: world where
  "first_world =
     \<lparr>CLI = idle_client, LAST_DOOR_STATE = None, POS_TRACKING_THREAD = False,
      DO_EXIT_THREAD = False, MQTT_CLIENT_SUB = True, gw_calls = 0, alive_polls = 0,
      trace = []\<rparr>"

section \<open>Facts about the helpers\<close>

lemma published_on_append:
  "published_on t (xs @ ys) = published_on t xs @ published_on t ys"
  by (induction t xs rule: published_on.induct) auto

lemma logged_append: "logged l (xs @ ys) = logged l xs @ logged l ys"
  by (induction l xs rule: logged.induct) auto

lemma requests_append: "requests (xs @ ys) = requests xs @ requests ys"
  by (induction xs rule: requests.induct) auto

lemma sleeps_append: "sleeps (xs @ ys) = sleeps xs @ sleeps ys"
  by (induction xs rule: sleeps.induct) auto

section \<open>The error classifier, the message handler and the dispatcher at concrete inputs\<close>

lemmas text_defs = py_int_def strip_def is_space_def is_int_space_def is_digit_def is_alpha_def digit_val_def
  lower_def lower_char_def str_int_def str_nat.simps str_opt_def str_in_def sublist_code

lemmas run_defs = publish_to_mqtt_def emit_def log_line_def sleep_def call_def MQTT_TOPIC_BASE_def
  MQTT_COMMAND_SUBTOPIC_def MAX_RETRIES_def

lemmas sample_defs = steady_gateway_def fixed_gateway_def first_world_def response_with_def
  idle_client_def failed_client_def

text \<open>
  Claim C8 says that every response with an embedded error code is published as a
  record of code and name. The branch of \<^verbatim>\<open>check_mcp_error\<close> written for a response that
  carries an error code while \<^verbatim>\<open>CLI.last_error\<close> is unset asks
  \<^verbatim>\<open>hasattr(resp, "resp.payload")\<close>, which no response answers with yes, so the branch is
  never taken: for the response below (error code 12, \<^verbatim>\<open>PERMISSION_DENIED\<close>) and a client
  with no \<^verbatim>\<open>last_error\<close> the function publishes the empty string on the error topic and
  returns \<^verbatim>\<open>None\<close>.
\<close>

theorem check_mcp_error_embedded_code_unflagged:
  "check_mcp_error (PResp (response_with None (Some (Error_code 12 ''PERMISSION_DENIED'')))) first_world
     = (None, first_world\<lparr>trace :=
          [Publish ''bisecur2mqtt/send_command/error'' (Payload (PStr [])),
           Publish ''bisecur2mqtt/send_command/error_ts'' Now]\<rparr>)"
  by (simp add: check_mcp_error_def run_defs sample_defs)

text \<open>
  \<^verbatim>\<open>check_mcp_error\<close> returns \<^verbatim>\<open>None\<close> whatever it is given: its first branch has no
  \<^verbatim>\<open>return\<close>, its second is never taken.
\<close>

lemma check_mcp_error_returns_none: "fst (check_mcp_error v w) = None"
  by (cases v) (simp_all add: check_mcp_error_def Let_def)

text \<open>
  Claim C7 says that the message \<^verbatim>\<open>get_door_state_1\<close> is accepted and leads to a status
  read of door 1. The pattern of \<^verbatim>\<open>on_message\<close> allows letters only before the one
  underscore, so the message is refused with a warning: nothing is asked of the gateway
  and nothing is published.
\<close>

theorem on_message_rejects_get_door_state:
  "\<not> re_match_command ''get_door_state_1''
   \<and> on_message (steady_gateway 0) ''get_door_state_1'' first_world
     = (Inr (), first_world\<lparr>trace :=
          [Log INFO ''---> Topic received command get_door_state_1'',
           Log WARNING ''Received invalid command format: get_door_state_1'']\<rparr>)"
  by (simp add: on_message_def re_match_command_def text_defs run_defs sample_defs)

text \<open>
  Claim C6 says that a token outside the command vocabulary gets an error text as its
  response and causes no gateway call. \<^verbatim>\<open>do_command\<close> tests \<^verbatim>\<open>cmd in "up down open ..."\<close>
  on strings, which is true of every substring: the token \<^verbatim>\<open>u\<close> of the message
  \<^verbatim>\<open>u_0\<close> goes to \<^verbatim>\<open>do_door_action\<close>, which tests it the same way and sends the
  set-state request to port 0; the response published is the gateway's.
\<close>

theorem do_command_unknown_token_reaches_gateway:
  "re_match_command ''u_0''
   \<and> requests (trace (snd (on_message (steady_gateway 40) ''u_0'' first_world))) = [Set_state 0]
   \<and> published_on ''bisecur2mqtt/send_command/0/response''
        (trace (snd (on_message (steady_gateway 40) ''u_0'' first_world)))
      = [Payload (PResp (response_with (Some 40) None))]"
  by (simp add: on_message_def re_match_command_def do_command_def do_command_branch_def
      do_door_action_def do_door_action_send_def check_mcp_error_def start_tracking_def
      opt_resp_def percent_of_def
      text_defs run_defs sample_defs)

section \<open>Waiting for the previous tracking thread\<close>

lemma requests_replicate_sleep [simp]: "requests (replicate k (Sleep d)) = []"
  by (induction k) auto

lemma wait_for_thread_polls:
  "\<exists>k. k \<le> nat \<lceil>(15 - counter) * 2\<rceil>
     \<and> (\<forall>j<k. alive e (alive_polls w + 2 * j))
     \<and> (k < nat \<lceil>(15 - counter) * 2\<rceil> \<longrightarrow> \<not> alive e (alive_polls w + 2 * k))
     \<and> trace (wait_for_thread e counter w) = trace w @ replicate k (Sleep (1 / 2))
     \<and> DO_EXIT_THREAD (wait_for_thread e counter w) = DO_EXIT_THREAD w
     \<and> POS_TRACKING_THREAD (wait_for_thread e counter w) = POS_TRACKING_THREAD w"
proof (induction e counter w rule: wait_for_thread.induct)
  case (1 e counter w)
  show ?case
  proof (cases "alive e (alive_polls w) \<and> counter < 15")
    case True
    let ?w = "sleep (1 / 2) (observe (observe w))"
    have polls: "alive_polls ?w = alive_polls w + 2"
      by (simp add: sleep_def emit_def observe_def)
    from "1.IH" [OF True] obtain k where
      k: "k \<le> nat \<lceil>(15 - (counter + 1 / 2)) * 2\<rceil>"
      and live: "\<forall>j<k. alive e (alive_polls ?w + 2 * j)"
      and dead: "k < nat \<lceil>(15 - (counter + 1 / 2)) * 2\<rceil> \<longrightarrow> \<not> alive e (alive_polls ?w + 2 * k)"
      and tr: "trace (wait_for_thread e (counter + 1 / 2) ?w) = trace ?w @ replicate k (Sleep (1 / 2))"
      and ex: "DO_EXIT_THREAD (wait_for_thread e (counter + 1 / 2) ?w) = DO_EXIT_THREAD ?w"
      and th: "POS_TRACKING_THREAD (wait_for_thread e (counter + 1 / 2) ?w) = POS_TRACKING_THREAD ?w"
      by blast
    have "\<lceil>(15 - (counter + 1 / 2)) * 2\<rceil> = \<lceil>(15 - counter) * 2 - 1\<rceil>"
      by (simp add: algebra_simps)
    then have step: "\<lceil>(15 - (counter + 1 / 2)) * 2\<rceil> = \<lceil>(15 - counter) * 2\<rceil> - 1"
      by (simp only: ceiling_diff_one)
    from True have pos: "0 < \<lceil>(15 - counter) * 2\<rceil>"
      by (simp add: ceiling_less_iff)
    from pos step have bound: "nat \<lceil>(15 - counter) * 2\<rceil> = Suc (nat \<lceil>(15 - (counter + 1 / 2)) * 2\<rceil>)"
      by linarith
    have unfold: "wait_for_thread e counter w = wait_for_thread e (counter + 1 / 2) ?w"
      using True by (subst wait_for_thread.simps) simp
    have 1: "Suc k \<le> nat \<lceil>(15 - counter) * 2\<rceil>"
      using k bound by simp
    have 2: "\<forall>j<Suc k. alive e (alive_polls w + 2 * j)"
    proof (intro allI impI)
      fix j
      assume j: "j < Suc k"
      show "alive e (alive_polls w + 2 * j)"
      proof (cases j)
        case 0
        with True show ?thesis
          by simp
      next
        case (Suc i)
        with j live have "alive e (alive_polls ?w + 2 * i)"
          by simp
        with Suc polls show ?thesis
          by (simp add: add.assoc)
      qed
    qed
    have 3: "Suc k < nat \<lceil>(15 - counter) * 2\<rceil> \<longrightarrow> \<not> alive e (alive_polls w + 2 * Suc k)"
      using dead bound polls by (simp add: add.assoc)
    have 4: "trace (wait_for_thread e counter w) = trace w @ replicate (Suc k) (Sleep (1 / 2))"
      unfolding unfold tr by (simp add: sleep_def emit_def observe_def replicate_append_same)
    have 5: "DO_EXIT_THREAD (wait_for_thread e counter w) = DO_EXIT_THREAD w"
      unfolding unfold ex by (simp add: sleep_def emit_def observe_def)
    have 6: "POS_TRACKING_THREAD (wait_for_thread e counter w) = POS_TRACKING_THREAD w"
      unfolding unfold th by (simp add: sleep_def emit_def observe_def)
    from 1 2 3 4 5 6 show ?thesis
      by blast
  next
    case False
    have stop: "wait_for_thread e counter w = observe w"
      by (subst wait_for_thread.simps) (simp only: False if_False)
    have "0 < nat \<lceil>(15 - counter) * 2\<rceil> \<longrightarrow> \<not> alive e (alive_polls w + 2 * 0)"
    proof
      assume "0 < nat \<lceil>(15 - counter) * 2\<rceil>"
      then have "0 < (15 - counter) * 2"
        by (simp add: ceiling_less_iff)
      then have "counter < 15"
        by simp
      with False show "\<not> alive e (alive_polls w + 2 * 0)"
        by simp
    qed
    moreover have "trace (wait_for_thread e counter w) = trace w @ replicate 0 (Sleep (1 / 2))"
      and "DO_EXIT_THREAD (wait_for_thread e counter w) = DO_EXIT_THREAD w"
      and "POS_TRACKING_THREAD (wait_for_thread e counter w) = POS_TRACKING_THREAD w"
      unfolding stop by (simp_all add: observe_def)
    ultimately show ?thesis
      by (intro exI [of _ 0]) simp
  qed
qed

lemma start_tracking_requests:
  "requests (trace (start_tracking e pos a d w)) = requests (trace w)"
proof -
  obtain k where
    "trace (wait_for_thread e 0 (sleep (1 / 10) ((observe w)\<lparr>DO_EXIT_THREAD := True\<rparr>)))
       = trace (sleep (1 / 10) ((observe w)\<lparr>DO_EXIT_THREAD := True\<rparr>)) @ replicate k (Sleep (1 / 2))"
    using wait_for_thread_polls by blast
  then show ?thesis
    by (simp add: start_tracking_def Let_def requests_append emit_def sleep_def observe_def)
qed

lemma start_tracking_waits:
  assumes "POS_TRACKING_THREAD w" and "alive e (alive_polls w)"
  shows "\<exists>k. k \<le> 30
     \<and> (\<forall>j<k. alive e (alive_polls w + 1 + 2 * j))
     \<and> (k < 30 \<longrightarrow> \<not> alive e (alive_polls w + 1 + 2 * k))
     \<and> trace (start_tracking e pos a d w)
         = trace w @ Sleep (1 / 10) # replicate k (Sleep (1 / 2)) @ [Thread_start pos a d]
     \<and> DO_EXIT_THREAD (start_tracking e pos a d w)"
proof -
  let ?w = "sleep (1 / 10) ((observe w)\<lparr>DO_EXIT_THREAD := True\<rparr>)"
  have polls: "alive_polls ?w = alive_polls w + 1"
    by (simp add: sleep_def emit_def observe_def)
  have thirty: "nat \<lceil>(15 - 0) * (2::rat)\<rceil> = 30"
    by simp
  obtain k where k: "k \<le> 30"
    and live: "\<forall>j<k. alive e (alive_polls w + 1 + 2 * j)"
    and dead: "k < 30 \<longrightarrow> \<not> alive e (alive_polls w + 1 + 2 * k)"
    and tr: "trace (wait_for_thread e 0 ?w) = trace ?w @ replicate k (Sleep (1 / 2))"
    and ex: "DO_EXIT_THREAD (wait_for_thread e 0 ?w) = DO_EXIT_THREAD ?w"
    and th: "POS_TRACKING_THREAD (wait_for_thread e 0 ?w) = POS_TRACKING_THREAD ?w"
    using wait_for_thread_polls [of 0 e ?w] unfolding thirty polls by blast
  have "trace (start_tracking e pos a d w)
         = trace w @ Sleep (1 / 10) # replicate k (Sleep (1 / 2)) @ [Thread_start pos a d]"
    using assms tr th by (simp add: start_tracking_def Let_def emit_def sleep_def observe_def)
  moreover have "DO_EXIT_THREAD (start_tracking e pos a d w)"
    using assms ex th by (simp add: start_tracking_def Let_def emit_def sleep_def observe_def)
  ultimately show ?thesis
    using k live dead by blast
qed

section \<open>Gateway requests of the door action executor\<close>

lemma sleeps_replicate_sleep [simp]: "sleeps (replicate k (Sleep d)) = replicate k d"
  by (induction k) auto

lemma check_mcp_error_trace:
  "\<exists>evs. trace (snd (check_mcp_error v w)) = trace w @ evs
     \<and> sleeps evs = [] \<and> requests evs = []
     \<and> POS_TRACKING_THREAD (snd (check_mcp_error v w)) = POS_TRACKING_THREAD w
     \<and> alive_polls (snd (check_mcp_error v w)) = alive_polls w
     \<and> DO_EXIT_THREAD (snd (check_mcp_error v w)) = DO_EXIT_THREAD w
     \<and> LAST_DOOR_STATE (snd (check_mcp_error v w)) = LAST_DOOR_STATE w
     \<and> MQTT_CLIENT_SUB (snd (check_mcp_error v w)) = MQTT_CLIENT_SUB w
     \<and> gw_calls (snd (check_mcp_error v w)) = gw_calls w
     \<and> CLI (snd (check_mcp_error v w)) = CLI w"
  by (cases v) (simp_all add: check_mcp_error_def Let_def publish_to_mqtt_def emit_def log_line_def)

lemma check_mcp_error_requests [simp]:
  "requests (trace (snd (check_mcp_error v w))) = requests (trace w)"
  using check_mcp_error_trace [of v w] by (auto simp: requests_append)

lemma init_bisecur_gw_requests:
  "\<exists>rest. requests (trace (snd (init_bisecur_gw e b w))) = requests (trace w) @ rest
     \<and> set rest \<subseteq> {New_client, Login}"
  by (auto simp: init_bisecur_gw_def do_gw_login_def call_def emit_def log_line_def Let_def
        requests_append split: outcome.splits option.splits)

lemma check_broken_pipe_requests:
  "\<exists>rest. requests (trace (snd (check_broken_pipe e m w))) = requests (trace w) @ rest
     \<and> set rest \<subseteq> {New_client, Login}"
proof (cases "str_in ''errno 32'' m \<or> str_in ''broken pipe'' m")
  case True
  obtain rest where
    "requests (trace (snd (init_bisecur_gw e True
        (log_line ERROR ''ERROR: Restarting due to broken pipe'' w))))
       = requests (trace (log_line ERROR ''ERROR: Restarting due to broken pipe'' w)) @ rest"
    and "set rest \<subseteq> {New_client, Login}"
    using init_bisecur_gw_requests by blast
  with True show ?thesis
    by (auto simp: check_broken_pipe_def log_line_def emit_def requests_append
        split: prod.splits sum.splits)
next
  case False
  then show ?thesis
    by (simp add: check_broken_pipe_def)
qed

lemma door_action_failed_requests:
  "\<exists>rest. requests (trace (snd (door_action_failed e m w))) = requests (trace w) @ rest
     \<and> set rest \<subseteq> {New_client, Login}"
proof -
  let ?w = "log_line ERROR ''action, port, value'' (log_line ERROR (''ERROR: '' @ m) w)"
  obtain rest where
    "requests (trace (snd (check_broken_pipe e (lower m) ?w))) = requests (trace ?w) @ rest"
    and "set rest \<subseteq> {New_client, Login}"
    using check_broken_pipe_requests by blast
  then show ?thesis
    by (auto simp: door_action_failed_def log_line_def emit_def requests_append
        split: prod.splits sum.splits)
qed

lemma action_vocabulary:
  "str_in ''impulse'' ''impulse up down partial light stop''"
  "str_in ''up'' ''impulse up down partial light stop''"
  "str_in ''down'' ''impulse up down partial light stop''"
  "str_in ''partial'' ''impulse up down partial light stop''"
  "str_in ''light'' ''impulse up down partial light stop''"
  by (simp_all add: str_in_def sublist_code)

lemma do_door_action_send_same_requests:
  assumes "str_in a ''impulse up down partial light stop''"
      and "str_in b ''impulse up down partial light stop''"
  shows "requests (trace (snd (do_door_action_send e a d w)))
           = requests (trace (snd (do_door_action_send e b d w)))"
  using assms
  by (simp add: do_door_action_send_def start_tracking_requests
      split: option.splits prod.splits sum.splits)

lemma do_door_action_send_first_request:
  assumes "str_in a ''impulse up down partial light stop''" and "py_int d = Some port"
  shows "\<exists>rest. requests (trace (snd (do_door_action_send e a d w)))
                  = requests (trace w) @ Set_state port # rest
               \<and> set rest \<subseteq> {New_client, Login}"
proof -
  obtain r w1 where c: "call e (Set_state port) w = (r, w1)"
    by (cases "call e (Set_state port) w")
  then have w1: "requests (trace w1) = requests (trace w) @ [Set_state port]"
    by (auto simp: call_def emit_def Let_def requests_append split: outcome.splits)
  show ?thesis
  proof (cases r)
    case (Inl m)
    obtain rest where "requests (trace (snd (door_action_failed e m w1))) = requests (trace w1) @ rest"
      and "set rest \<subseteq> {New_client, Login}"
      using door_action_failed_requests by blast
    with assms c Inl w1 show ?thesis
      by (simp add: do_door_action_send_def)
  next
    case (Inr resp)
    obtain o2 w2 where k: "check_mcp_error (opt_resp resp) w1 = (o2, w2)"
      by (cases "check_mcp_error (opt_resp resp) w1")
    then have w2: "requests (trace w2) = requests (trace w1)"
      using check_mcp_error_requests [of "opt_resp resp" w1] by simp
    obtain rest1 where f1: "requests (trace (snd (door_action_failed e
          (no_attribute ''payload'') w2))) = requests (trace w2) @ rest1"
      and s1: "set rest1 \<subseteq> {New_client, Login}"
      using door_action_failed_requests by blast
    obtain rest2 where f2: "requests (trace (snd (door_action_failed e
          (no_attribute ''command'') w2))) = requests (trace w2) @ rest2"
      and s2: "set rest2 \<subseteq> {New_client, Login}"
      using door_action_failed_requests by blast
    from assms c Inr k w1 w2 f1 s1 f2 s2 show ?thesis
      by (auto simp: do_door_action_send_def start_tracking_requests
          split: option.splits)
  qed
qed

section \<open>The door action executor\<close>

text \<open>
  Claim C4. The action \<open>stop\<close> with the last known state \<open>opening\<close> is the action
  \<open>down\<close> (the same result and the same final state, and for a numeric door id the
  set-state request is sent); with \<open>closing\<close> it is the action \<open>up\<close>; with any other
  last known state the result is a warning text, which is logged, and nothing else
  happens: no request goes to the gateway.
\<close>

theorem do_door_action_stop_contextual:
  "(LAST_DOOR_STATE w = Some ''opening'' \<longrightarrow>
      do_door_action e ''stop'' set_door w = do_door_action e ''down'' set_door w
      \<and> (\<forall>port. py_int set_door = Some port \<longrightarrow>
            (\<exists>rest. requests (trace (snd (do_door_action e ''stop'' set_door w)))
                      = requests (trace w) @ Set_state port # rest)))
   \<and> (LAST_DOOR_STATE w = Some ''closing'' \<longrightarrow>
      do_door_action e ''stop'' set_door w = do_door_action e ''up'' set_door w
      \<and> (\<forall>port. py_int set_door = Some port \<longrightarrow>
            (\<exists>rest. requests (trace (snd (do_door_action e ''stop'' set_door w)))
                      = requests (trace w) @ Set_state port # rest)))
   \<and> (LAST_DOOR_STATE w \<noteq> Some ''opening'' \<and> LAST_DOOR_STATE w \<noteq> Some ''closing'' \<longrightarrow>
      (\<exists>msg. do_door_action e ''stop'' set_door w
                = (Inr (PStr msg), w\<lparr>trace := trace w @ [Log WARNING msg]\<rparr>))
      \<and> requests (trace (snd (do_door_action e ''stop'' set_door w))) = requests (trace w)
      \<and> gw_calls (snd (do_door_action e ''stop'' set_door w)) = gw_calls w)"
proof (intro conjI impI allI)
  assume "LAST_DOOR_STATE w = Some ''opening''"
  then show "do_door_action e ''stop'' set_door w = do_door_action e ''down'' set_door w"
    by (simp add: do_door_action_def)
next
  fix port
  assume "LAST_DOOR_STATE w = Some ''opening''" and "py_int set_door = Some port"
  then show "\<exists>rest. requests (trace (snd (do_door_action e ''stop'' set_door w)))
                      = requests (trace w) @ Set_state port # rest"
    using do_door_action_send_first_request [OF action_vocabulary(3), of set_door port e w]
    by (auto simp: do_door_action_def)
next
  assume "LAST_DOOR_STATE w = Some ''closing''"
  then show "do_door_action e ''stop'' set_door w = do_door_action e ''up'' set_door w"
    by (simp add: do_door_action_def)
next
  fix port
  assume "LAST_DOOR_STATE w = Some ''closing''" and "py_int set_door = Some port"
  then show "\<exists>rest. requests (trace (snd (do_door_action e ''stop'' set_door w)))
                      = requests (trace w) @ Set_state port # rest"
    using do_door_action_send_first_request [OF action_vocabulary(2), of set_door port e w]
    by (auto simp: do_door_action_def)
next
  assume "LAST_DOOR_STATE w \<noteq> Some ''opening'' \<and> LAST_DOOR_STATE w \<noteq> Some ''closing''"
  then show "\<exists>msg. do_door_action e ''stop'' set_door w
                = (Inr (PStr msg), w\<lparr>trace := trace w @ [Log WARNING msg]\<rparr>)"
    by (simp add: do_door_action_def Let_def log_line_def emit_def)
next
  assume "LAST_DOOR_STATE w \<noteq> Some ''opening'' \<and> LAST_DOOR_STATE w \<noteq> Some ''closing''"
  then show "requests (trace (snd (do_door_action e ''stop'' set_door w))) = requests (trace w)"
    by (simp add: do_door_action_def Let_def log_line_def emit_def requests_append)
next
  assume "LAST_DOOR_STATE w \<noteq> Some ''opening'' \<and> LAST_DOOR_STATE w \<noteq> Some ''closing''"
  then show "gw_calls (snd (do_door_action e ''stop'' set_door w)) = gw_calls w"
    by (simp add: do_door_action_def Let_def log_line_def emit_def)
qed

theorem do_door_action_stop_contextual_witness:
  "requests (trace (snd (do_door_action (steady_gateway 40) ''stop'' ''0''
       (first_world\<lparr>LAST_DOOR_STATE := Some ''opening''\<rparr>))))
     = requests (trace (snd (do_door_action (steady_gateway 40) ''down'' ''0''
       (first_world\<lparr>LAST_DOOR_STATE := Some ''opening''\<rparr>))))
   \<and> requests (trace (snd (do_door_action (steady_gateway 40) ''stop'' ''0''
       (first_world\<lparr>LAST_DOOR_STATE := Some ''closing''\<rparr>))))
     = requests (trace (snd (do_door_action (steady_gateway 40) ''up'' ''0''
       (first_world\<lparr>LAST_DOOR_STATE := Some ''closing''\<rparr>))))
   \<and> requests (trace (snd (do_door_action (steady_gateway 40) ''stop'' ''0'' first_world))) = []"
proof -
  have a: "LAST_DOOR_STATE (first_world\<lparr>LAST_DOOR_STATE := Some ''opening''\<rparr>) = Some ''opening''"
    by simp
  have b: "LAST_DOOR_STATE (first_world\<lparr>LAST_DOOR_STATE := Some ''closing''\<rparr>) = Some ''closing''"
    by simp
  have c: "LAST_DOOR_STATE first_world \<noteq> Some ''opening''
           \<and> LAST_DOOR_STATE first_world \<noteq> Some ''closing''"
    by (simp add: first_world_def)
  have t: "requests (trace first_world) = []"
    by (simp add: first_world_def)
  from do_door_action_stop_contextual
         [of "first_world\<lparr>LAST_DOOR_STATE := Some ''opening''\<rparr>" "steady_gateway 40" "''0''"] a
  have 1: "do_door_action (steady_gateway 40) ''stop'' ''0''
             (first_world\<lparr>LAST_DOOR_STATE := Some ''opening''\<rparr>)
           = do_door_action (steady_gateway 40) ''down'' ''0''
             (first_world\<lparr>LAST_DOOR_STATE := Some ''opening''\<rparr>)"
    by blast
  from do_door_action_stop_contextual
         [of "first_world\<lparr>LAST_DOOR_STATE := Some ''closing''\<rparr>" "steady_gateway 40" "''0''"] b
  have 2: "do_door_action (steady_gateway 40) ''stop'' ''0''
             (first_world\<lparr>LAST_DOOR_STATE := Some ''closing''\<rparr>)
           = do_door_action (steady_gateway 40) ''up'' ''0''
             (first_world\<lparr>LAST_DOOR_STATE := Some ''closing''\<rparr>)"
    by blast
  from do_door_action_stop_contextual [of first_world "steady_gateway 40" "''0''"] c t
  have 3: "requests (trace (snd (do_door_action (steady_gateway 40) ''stop'' ''0'' first_world))) = []"
    by simp
  from 1 2 3 show ?thesis
    by simp
qed

text \<open>
  Claim C10. For two actions among impulse, up, down, partial and light, the same door
  and the same starting state, the requests sent to the gateway are the same, and so
  are those of a \<open>stop\<close> that is translated; for a numeric door id the request sent is
  the set-state request of that port (anything after it is the reinitialisation of the
  session after a broken pipe).
\<close>

theorem do_door_action_request_ignores_action:
  assumes "a \<in> {''impulse'', ''up'', ''down'', ''partial'', ''light''}"
      and "b \<in> {''impulse'', ''up'', ''down'', ''partial'', ''light''}"
  shows "requests (trace (snd (do_door_action e a set_door w)))
           = requests (trace (snd (do_door_action e b set_door w)))
       \<and> (LAST_DOOR_STATE w = Some ''opening'' \<or> LAST_DOOR_STATE w = Some ''closing'' \<longrightarrow>
            requests (trace (snd (do_door_action e ''stop'' set_door w)))
              = requests (trace (snd (do_door_action e b set_door w))))
       \<and> (\<forall>port. py_int set_door = Some port \<longrightarrow>
            (\<exists>rest. requests (trace (snd (do_door_action e a set_door w)))
                      = requests (trace w) @ Set_state port # rest
                   \<and> set rest \<subseteq> {New_client, Login}))"
proof -
  have va: "str_in a ''impulse up down partial light stop''" and na: "a \<noteq> ''stop''"
    using assms(1) action_vocabulary by auto
  have vb: "str_in b ''impulse up down partial light stop''" and nb: "b \<noteq> ''stop''"
    using assms(2) action_vocabulary by auto
  have sa: "do_door_action e a set_door w = do_door_action_send e a set_door w"
    using na by (simp add: do_door_action_def)
  have sb: "do_door_action e b set_door w = do_door_action_send e b set_door w"
    using nb by (simp add: do_door_action_def)
  have 1: "requests (trace (snd (do_door_action e a set_door w)))
             = requests (trace (snd (do_door_action e b set_door w)))"
    unfolding sa sb by (rule do_door_action_send_same_requests [OF va vb])
  have 2: "LAST_DOOR_STATE w = Some ''opening'' \<or> LAST_DOOR_STATE w = Some ''closing'' \<longrightarrow>
            requests (trace (snd (do_door_action e ''stop'' set_door w)))
              = requests (trace (snd (do_door_action e b set_door w)))"
    unfolding sb
    using do_door_action_send_same_requests [OF action_vocabulary(3) vb, of e set_door w]
      do_door_action_send_same_requests [OF action_vocabulary(2) vb, of e set_door w]
    by (auto simp: do_door_action_def)
  have 3: "\<forall>port. py_int set_door = Some port \<longrightarrow>
            (\<exists>rest. requests (trace (snd (do_door_action e a set_door w)))
                      = requests (trace w) @ Set_state port # rest
                   \<and> set rest \<subseteq> {New_client, Login})"
    unfolding sa using do_door_action_send_first_request [OF va] by blast
  from 1 2 3 show ?thesis
    by blast
qed

theorem do_door_action_request_ignores_action_witness:
  "''light'' \<in> {''impulse'', ''up'', ''down'', ''partial'', ''light''}
   \<and> ''down'' \<in> {''impulse'', ''up'', ''down'', ''partial'', ''light''}
   \<and> requests (trace (snd (do_door_action (steady_gateway 40) ''light'' ''1'' first_world)))
       = requests (trace (snd (do_door_action (steady_gateway 40) ''down'' ''1'' first_world)))
   \<and> requests (trace (snd (do_door_action (steady_gateway 40) ''down'' ''1'' first_world)))
       = [Set_state 1]"
proof -
  have a: "''light'' \<in> {''impulse'', ''up'', ''down'', ''partial'', ''light''}"
    by simp
  have b: "''down'' \<in> {''impulse'', ''up'', ''down'', ''partial'', ''light''}"
    by simp
  have sent: "requests (trace (snd (do_door_action (steady_gateway 40) ''down'' ''1'' first_world)))
                = [Set_state 1]"
    by (simp add: do_door_action_def do_door_action_send_def check_mcp_error_def
        start_tracking_def opt_resp_def percent_of_def text_defs run_defs sample_defs)
  from do_door_action_request_ignores_action [OF a b] a b sent show ?thesis
    by blast
qed

section \<open>Superseding a live tracking thread\<close>

lemma do_door_action_send_started:
  assumes "str_in action ''impulse up down partial light stop''"
      and "py_int set_door = Some port"
      and "gw e (gw_calls w) = Returns (Some r) c"
      and "payload r = Some p"
  shows "do_door_action_send e action set_door w
           = (Inr (PResp r),
              start_tracking e (case percent_of (Some r) of Some x \<Rightarrow> x | None \<Rightarrow> - 1)
                action set_door
                (snd (check_mcp_error (PResp r)
                   (w\<lparr>trace := trace w @ [Gateway (Set_state port)],
                      gw_calls := Suc (gw_calls w), CLI := c\<rparr>))))"
proof -
  let ?w1 = "w\<lparr>trace := trace w @ [Gateway (Set_state port)], gw_calls := Suc (gw_calls w), CLI := c\<rparr>"
  have c: "call e (Set_state port) w = (Inr (Some r), ?w1)"
    using assms(3) by (simp add: call_def emit_def Let_def)
  obtain o2 w2 where k: "check_mcp_error (PResp r) ?w1 = (o2, w2)"
    by (cases "check_mcp_error (PResp r) ?w1")
  with check_mcp_error_returns_none [of "PResp r" ?w1] have "o2 = None"
    by simp
  with assms c k show ?thesis
    by (simp add: do_door_action_send_def opt_resp_def)
qed

text \<open>
  Claim C3, amended. When the gateway has answered the set-state request and a tracking
  thread is alive, the executor sets the cancellation flag, sleeps 0.1 seconds, and then
  polls the old thread, sleeping 0.5 seconds after each poll that finds it alive: there
  are \<open>k\<close> such polls, at most 30 (the counter advances by 0.5 up to 15), every one of
  them found the thread alive, and when \<open>k\<close> is below 30 the next poll found it gone
  (the look numbered \<open>alive_polls w\<close> is that of the \<^verbatim>\<open>if\<close>; poll \<open>j\<close> is the look
  \<open>alive_polls w + 1 + 2 * j\<close>, the debug message of the body taking one look in between). So
  the executor waits until the old thread has exited, at most 15.1 seconds in all; then
  it starts the new thread with the position of the response (-1 without one), the action
  and the door.
\<close>

theorem do_door_action_supersede_wait:
  assumes "action \<in> {''impulse'', ''up'', ''down'', ''partial'', ''light''}"
      and "py_int set_door = Some port"
      and "gw e (gw_calls w) = Returns (Some r) c"
      and "payload r = Some p"
      and "POS_TRACKING_THREAD w"
      and "alive e (alive_polls w)"
  shows "\<exists>k evs. k \<le> 30 \<and> sleeps evs = []
           \<and> (\<forall>j<k. alive e (alive_polls w + 1 + 2 * j))
           \<and> (k < 30 \<longrightarrow> \<not> alive e (alive_polls w + 1 + 2 * k))
           \<and> trace (snd (do_door_action e action set_door w))
               = trace w @ Gateway (Set_state port) # evs
                 @ Sleep (1 / 10) # replicate k (Sleep (1 / 2))
                 @ [Thread_start (case percent_of (Some r) of Some x \<Rightarrow> x | None \<Rightarrow> - 1)
                      action set_door]
           \<and> sum_list (sleeps (trace (snd (do_door_action e action set_door w))))
               \<le> sum_list (sleeps (trace w)) + 1 / 10 + 15
           \<and> DO_EXIT_THREAD (snd (do_door_action e action set_door w))
           \<and> fst (do_door_action e action set_door w) = Inr (PResp r)"
proof -
  let ?pos = "case percent_of (Some r) of Some x \<Rightarrow> x | None \<Rightarrow> - 1"
  let ?w1 = "w\<lparr>trace := trace w @ [Gateway (Set_state port)], gw_calls := Suc (gw_calls w), CLI := c\<rparr>"
  let ?w2 = "snd (check_mcp_error (PResp r) ?w1)"
  have v: "str_in action ''impulse up down partial light stop''" and n: "action \<noteq> ''stop''"
    using assms(1) action_vocabulary by auto
  have run: "do_door_action e action set_door w
               = (Inr (PResp r), start_tracking e ?pos action set_door ?w2)"
    using n do_door_action_send_started [OF v assms(2,3,4)] by (simp add: do_door_action_def)
  obtain evs where evs: "trace ?w2 = trace ?w1 @ evs" and quiet: "sleeps evs = []"
    and th: "POS_TRACKING_THREAD ?w2 = POS_TRACKING_THREAD ?w1"
    and al: "alive_polls ?w2 = alive_polls ?w1"
    using check_mcp_error_trace [of "PResp r" ?w1] by blast
  have al': "alive_polls ?w2 = alive_polls w"
    using al by simp
  have "POS_TRACKING_THREAD ?w2" and "alive e (alive_polls ?w2)"
    using th al assms(5,6) by simp_all
  from start_tracking_waits [OF this, of ?pos action set_door]
  obtain k where k: "k \<le> 30"
    and live: "\<forall>j<k. alive e (alive_polls w + 1 + 2 * j)"
    and dead: "k < 30 \<longrightarrow> \<not> alive e (alive_polls w + 1 + 2 * k)"
    and tr: "trace (start_tracking e ?pos action set_door ?w2)
               = trace ?w2 @ Sleep (1 / 10) # replicate k (Sleep (1 / 2))
                 @ [Thread_start ?pos action set_door]"
    and ex: "DO_EXIT_THREAD (start_tracking e ?pos action set_door ?w2)"
    unfolding al' by blast
  have whole: "trace (snd (do_door_action e action set_door w))
           = trace w @ Gateway (Set_state port) # evs
             @ Sleep (1 / 10) # replicate k (Sleep (1 / 2)) @ [Thread_start ?pos action set_door]"
    using run tr evs by simp
  have "sum_list (replicate k (1 / 2 :: rat)) = of_nat k * (1 / 2)"
    by (simp add: sum_list_replicate)
  with k have "sum_list (replicate k (1 / 2 :: rat)) \<le> 15"
    by simp
  then have total: "sum_list (sleeps (trace (snd (do_door_action e action set_door w))))
               \<le> sum_list (sleeps (trace w)) + 1 / 10 + 15"
    unfolding whole using quiet by (simp add: sleeps_append)
  have flag: "DO_EXIT_THREAD (snd (do_door_action e action set_door w))"
    and res: "fst (do_door_action e action set_door w) = Inr (PResp r)"
    using run ex by simp_all
  from k quiet live dead whole total flag res show ?thesis
    by blast
qed

theorem do_door_action_supersede_wait_witness:
  "''up'' \<in> {''impulse'', ''up'', ''down'', ''partial'', ''light''}
   \<and> py_int ''0'' = Some 0
   \<and> POS_TRACKING_THREAD (first_world\<lparr>POS_TRACKING_THREAD := True\<rparr>)
   \<and> alive (fixed_gateway (Returns (Some (response_with (Some 40) None)) idle_client) 3) 0
   \<and> alive (fixed_gateway (Returns (Some (response_with (Some 40) None)) idle_client) 3) 1
   \<and> \<not> alive (fixed_gateway (Returns (Some (response_with (Some 40) None)) idle_client) 3) 3
   \<and> sleeps (trace (snd (do_door_action
         (fixed_gateway (Returns (Some (response_with (Some 40) None)) idle_client) 3) ''up'' ''0''
         (first_world\<lparr>POS_TRACKING_THREAD := True\<rparr>)))) = [1 / 10, 1 / 2]
   \<and> fst (do_door_action
         (fixed_gateway (Returns (Some (response_with (Some 40) None)) idle_client) 3) ''up'' ''0''
         (first_world\<lparr>POS_TRACKING_THREAD := True\<rparr>))
       = Inr (PResp (response_with (Some 40) None))"
proof -
  let ?e = "fixed_gateway (Returns (Some (response_with (Some 40) None)) idle_client) 3"
  let ?w = "first_world\<lparr>POS_TRACKING_THREAD := True\<rparr>"
  have a: "''up'' \<in> {''impulse'', ''up'', ''down'', ''partial'', ''light''}"
    by simp
  have d: "py_int ''0'' = Some 0"
    by (simp add: text_defs)
  have g: "gw ?e (gw_calls ?w) = Returns (Some (response_with (Some 40) None)) idle_client"
    by (simp add: sample_defs)
  have p: "payload (response_with (Some 40) None)
             = Some \<lparr>command_id = 0,
                     command = Some \<lparr>percent_open = Some 40, error_code = None, gw_version = None\<rparr>,
                     groups = None\<rparr>"
    by (simp add: sample_defs)
  have t: "POS_TRACKING_THREAD ?w"
    by simp
  have al: "alive ?e n = (n < 3)" for n
    by (simp add: sample_defs)
  have polls: "alive_polls ?w = 0"
    by (simp add: sample_defs)
  have l: "alive ?e (alive_polls ?w)"
    by (simp add: al polls)
  have s: "sleeps (trace ?w) = []"
    by (simp add: sample_defs)
  from do_door_action_supersede_wait [OF a d g p t l]
  obtain k evs where quiet: "sleeps evs = []"
    and live: "\<forall>j<k. alive ?e (alive_polls ?w + 1 + 2 * j)"
    and dead: "k < 30 \<longrightarrow> \<not> alive ?e (alive_polls ?w + 1 + 2 * k)"
    and whole: "trace (snd (do_door_action ?e ''up'' ''0'' ?w))
                  = trace ?w @ Gateway (Set_state 0) # evs
                    @ Sleep (1 / 10) # replicate k (Sleep (1 / 2))
                    @ [Thread_start (case percent_of (Some (response_with (Some 40) None)) of
                                       Some x \<Rightarrow> x | None \<Rightarrow> - 1) ''up'' ''0'']"
    and res: "fst (do_door_action ?e ''up'' ''0'' ?w) = Inr (PResp (response_with (Some 40) None))"
    by blast
  have "k < 2"
  proof (rule ccontr)
    assume "\<not> k < 2"
    then have "1 < k"
      by simp
    with live have "alive ?e (alive_polls ?w + 1 + 2 * 1)"
      by blast
    then show False
      by (simp add: al polls)
  qed
  moreover have "k \<noteq> 0"
  proof
    assume "k = 0"
    with dead have "\<not> alive ?e (alive_polls ?w + 1 + 2 * 0)"
      by simp
    then show False
      by (simp add: al polls)
  qed
  ultimately have k: "k = 1"
    by simp
  have "sleeps (trace (snd (do_door_action ?e ''up'' ''0'' ?w))) = [1 / 10, 1 / 2]"
    unfolding whole k using quiet s by (simp add: sleeps_append)
  with a d t res show ?thesis
    by (simp add: al)
qed

text \<open>
  Claim C3 as stated (at most 15 polls, about 7.5 seconds) fails: an old thread that
  stays alive is polled 30 times.
\<close>

theorem do_door_action_waits_thirty_polls:
  "sleeps (trace (snd (do_door_action
      (fixed_gateway (Returns (Some (response_with (Some 40) None)) idle_client) 1000) ''up'' ''0''
      (first_world\<lparr>POS_TRACKING_THREAD := True\<rparr>))))
     = 1 / 10 # replicate 30 (1 / 2)
   \<and> \<not> length (filter (\<lambda>d. d = 1 / 2) (sleeps (trace (snd (do_door_action
      (fixed_gateway (Returns (Some (response_with (Some 40) None)) idle_client) 1000) ''up'' ''0''
      (first_world\<lparr>POS_TRACKING_THREAD := True\<rparr>)))))) \<le> 15"
proof -
  have run: "sleeps (trace (snd (do_door_action
      (fixed_gateway (Returns (Some (response_with (Some 40) None)) idle_client) 1000) ''up'' ''0''
      (first_world\<lparr>POS_TRACKING_THREAD := True\<rparr>))))
     = 1 / 10 # replicate 30 (1 / 2)"
    by (simp add: do_door_action_def do_door_action_send_def check_mcp_error_def
        start_tracking_def wait_for_thread.simps observe_def opt_resp_def percent_of_def
        text_defs run_defs sample_defs numeral_eq_Suc)
  show ?thesis
    unfolding run by (simp add: numeral_eq_Suc)
qed

section \<open>The retry loop of the door status reader\<close>

lemma get_door_status_read_quiet:
  "sleeps (trace (snd (get_door_status_read d resp w))) = sleeps (trace w)
   \<and> requests (trace (snd (get_door_status_read d resp w))) = requests (trace w)"
  by (simp add: get_door_status_read_def publish_to_mqtt_def emit_def log_line_def Let_def
      sleeps_append requests_append split: option.splits)

lemma init_bisecur_gw_sleeps:
  "sleeps (trace (snd (init_bisecur_gw e b w))) = sleeps (trace w)"
  by (auto simp: init_bisecur_gw_def do_gw_login_def call_def emit_def log_line_def Let_def
        sleeps_append split: outcome.splits option.splits)

lemma check_broken_pipe_sleeps:
  "sleeps (trace (snd (check_broken_pipe e m w))) = sleeps (trace w)"
  using init_bisecur_gw_sleeps [of e True "log_line ERROR ''ERROR: Restarting due to broken pipe'' w"]
  by (auto simp: check_broken_pipe_def log_line_def emit_def sleeps_append
      split: prod.splits sum.splits)

lemma check_broken_pipe_queries:
  "filter (is_query d) (requests (trace (snd (check_broken_pipe e m w))))
     = filter (is_query d) (requests (trace w))"
proof -
  obtain rest where "requests (trace (snd (check_broken_pipe e m w))) = requests (trace w) @ rest"
    and "set rest \<subseteq> {New_client, Login}"
    using check_broken_pipe_requests by blast
  then show ?thesis
    by (auto simp: is_query_def filter_empty_conv)
qed

text \<open>One pass through the loop of \<^verbatim>\<open>get_door_status\<close>.\<close>

lemma loop_returns:
  assumes "retries < MAX_RETRIES" and "gw e (gw_calls w) = Returns resp c"
  shows "get_door_status_loop e d retries w
           = (Inr (fst (get_door_status_read d resp
                (w\<lparr>trace := trace w @ [Gateway (Get_transition d)], gw_calls := Suc (gw_calls w), CLI := c\<rparr>))),
              snd (get_door_status_read d resp
                (w\<lparr>trace := trace w @ [Gateway (Get_transition d)], gw_calls := Suc (gw_calls w), CLI := c\<rparr>)))"
  using assms
  by (subst get_door_status_loop.simps) (simp add: call_def emit_def Let_def split: prod.splits)

lemma loop_raises:
  assumes "retries < MAX_RETRIES" and "gw e (gw_calls w) = Raises m c"
  shows "get_door_status_loop e d retries w
           = (case check_broken_pipe e (lower m) (after_failure d m c w) of
                (Inl x, w2) \<Rightarrow> (Inl x, w2)
              | (Inr True, w2) \<Rightarrow> (Inr (None, - 1, None), w2)
              | (Inr False, w2) \<Rightarrow>
                  if last_error (CLI w2) \<noteq> None \<and> retries < 5
                  then get_door_status_loop e d (Suc retries)
                         (sleep (8 / 10) (log_line ERROR ''[ERROR] CLI error found'' w2))
                  else (Inr (None, - 1, None), w2))"
  using assms
  by (subst get_door_status_loop.simps)
     (simp add: call_def Let_def after_failure_def)

lemma loop_bounded:
  "5 - retries = n \<Longrightarrow>
   \<exists>k. k \<le> n
     \<and> sleeps (trace (snd (get_door_status_loop e d retries w)))
         = sleeps (trace w) @ replicate k (8 / 10)
     \<and> filter (is_query d) (requests (trace (snd (get_door_status_loop e d retries w))))
         = filter (is_query d) (requests (trace w))
           @ (if retries < MAX_RETRIES then replicate (Suc k) (Get_transition d) else [])"
proof (induction n arbitrary: retries w)
  case 0
  show ?case
  proof (cases "retries < MAX_RETRIES")
    case False
    then show ?thesis
      by (subst (1 2) get_door_status_loop.simps) simp
  next
    case True
    show ?thesis
    proof (cases "gw e (gw_calls w)")
      case (Returns resp c)
      show ?thesis
        using True get_door_status_read_quiet
        by (simp add: loop_returns [OF True Returns] sleeps_append requests_append is_query_def)
    next
      case (Raises m c)
      obtain r w2 where cb: "check_broken_pipe e (lower m) (after_failure d m c w) = (r, w2)"
        by (cases "check_broken_pipe e (lower m) (after_failure d m c w)")
      have s: "sleeps (trace w2) = sleeps (trace w)"
        using check_broken_pipe_sleeps [of e "lower m" "after_failure d m c w"] cb
        by (simp add: after_failure_def log_line_def emit_def sleeps_append)
      have q: "filter (is_query d) (requests (trace w2))
                 = filter (is_query d) (requests (trace w)) @ [Get_transition d]"
        using check_broken_pipe_queries [of d e "lower m" "after_failure d m c w"] cb
        by (simp add: after_failure_def log_line_def emit_def requests_append is_query_def)
      from "0.prems" have "\<not> retries < 5"
        by simp
      with True s q cb show ?thesis
        by (auto simp: loop_raises [OF True Raises] split: sum.splits bool.splits)
    qed
  qed
next
  case (Suc n)
  then have r5: "retries < 5" and next_n: "5 - Suc retries = n"
    by simp_all
  then have True: "retries < MAX_RETRIES"
    by (simp add: MAX_RETRIES_def)
  show ?case
  proof (cases "gw e (gw_calls w)")
    case (Returns resp c)
    show ?thesis
      using True get_door_status_read_quiet
      by (simp add: loop_returns [OF True Returns] sleeps_append requests_append is_query_def)
  next
    case (Raises m c)
    obtain r w2 where cb: "check_broken_pipe e (lower m) (after_failure d m c w) = (r, w2)"
      by (cases "check_broken_pipe e (lower m) (after_failure d m c w)")
    have s: "sleeps (trace w2) = sleeps (trace w)"
      using check_broken_pipe_sleeps [of e "lower m" "after_failure d m c w"] cb
      by (simp add: after_failure_def log_line_def emit_def sleeps_append)
    have q: "filter (is_query d) (requests (trace w2))
               = filter (is_query d) (requests (trace w)) @ [Get_transition d]"
      using check_broken_pipe_queries [of d e "lower m" "after_failure d m c w"] cb
      by (simp add: after_failure_def log_line_def emit_def requests_append is_query_def)
    show ?thesis
    proof (cases "r = Inr False \<and> last_error (CLI w2) \<noteq> None")
      case False
      with True s q cb show ?thesis
        by (auto simp: loop_raises [OF True Raises] split: sum.splits bool.splits)
    next
      case again: True
      let ?w3 = "sleep (8 / 10) (log_line ERROR ''[ERROR] CLI error found'' w2)"
      have run: "get_door_status_loop e d retries w = get_door_status_loop e d (Suc retries) ?w3"
        using again r5 cb by (simp add: loop_raises [OF True Raises])
      have s3: "sleeps (trace ?w3) = sleeps (trace w) @ [8 / 10]"
        using s by (simp add: sleep_def log_line_def emit_def sleeps_append)
      have q3: "filter (is_query d) (requests (trace ?w3))
                  = filter (is_query d) (requests (trace w)) @ [Get_transition d]"
        using q by (simp add: sleep_def log_line_def emit_def requests_append)
      have more: "Suc retries < MAX_RETRIES"
        using r5 by (simp add: MAX_RETRIES_def)
      from Suc.IH [OF next_n, of ?w3] obtain k where k: "k \<le> n"
        and sk: "sleeps (trace (snd (get_door_status_loop e d (Suc retries) ?w3)))
                   = sleeps (trace ?w3) @ replicate k (8 / 10)"
        and qk: "filter (is_query d) (requests (trace (snd (get_door_status_loop e d (Suc retries) ?w3))))
                   = filter (is_query d) (requests (trace ?w3)) @ replicate (Suc k) (Get_transition d)"
        using more by auto
      have "Suc k \<le> Suc n"
        using k by simp
      moreover have "sleeps (trace (snd (get_door_status_loop e d retries w)))
                       = sleeps (trace w) @ replicate (Suc k) (8 / 10)"
        unfolding run sk s3 by simp
      moreover have "filter (is_query d) (requests (trace (snd (get_door_status_loop e d retries w))))
                       = filter (is_query d) (requests (trace w)) @ replicate (Suc (Suc k)) (Get_transition d)"
        unfolding run qk q3 by simp
      ultimately show ?thesis
        using True by (intro exI [of _ "Suc k"]) simp
    qed
  qed
qed

lemma after_faults_1:
  "after_faults e d (Suc 0) w
     = (case gw e (gw_calls w) of
          Raises m c \<Rightarrow>
            sleep (8 / 10) (log_line ERROR ''[ERROR] CLI error found'' (after_failure d m c w))
        | Returns r c \<Rightarrow> w)"
  by simp

lemma after_faults_Suc:
  "after_faults e d (Suc k) w = after_faults e d k (after_faults e d 1 w)"
  by simp

declare after_faults.simps(2) [simp del]

lemma flagged_faultE:
  assumes "flagged_fault out"
  obtains m c where "out = Raises m c"
    and "\<not> (str_in ''errno 32'' (lower m) \<or> str_in ''broken pipe'' (lower m))"
    and "last_error c \<noteq> None"
  using assms by (cases out) (auto simp: flagged_fault_def)

lemma flagged_pass:
  assumes "flagged_fault (gw e (gw_calls w))" and "retries < 5"
  shows "get_door_status_loop e d retries w
           = get_door_status_loop e d (Suc retries) (after_faults e d 1 w)"
proof -
  from assms(1) obtain m c where out: "gw e (gw_calls w) = Raises m c"
    and other: "\<not> (str_in ''errno 32'' (lower m) \<or> str_in ''broken pipe'' (lower m))"
    and flagged: "last_error c \<noteq> None"
    by (rule flagged_faultE)
  have lt: "retries < MAX_RETRIES"
    using assms(2) by (simp add: MAX_RETRIES_def)
  show ?thesis
    using other flagged assms(2) out
    by (simp add: loop_raises [OF lt out] check_broken_pipe_def after_faults_1
        after_failure_def log_line_def emit_def)
qed

lemma after_one_fault:
  assumes "flagged_fault (gw e (gw_calls w))"
  shows "gw_calls (after_faults e d 1 w) = Suc (gw_calls w)
       \<and> MQTT_CLIENT_SUB (after_faults e d 1 w) = MQTT_CLIENT_SUB w
       \<and> published_on t (trace (after_faults e d 1 w)) = published_on t (trace w)
       \<and> logged WARNING (trace (after_faults e d 1 w)) = logged WARNING (trace w)
       \<and> sleeps (trace (after_faults e d 1 w)) = sleeps (trace w) @ [8 / 10]
       \<and> requests (trace (after_faults e d 1 w)) = requests (trace w) @ [Get_transition d]"
  using assms
  by (auto elim!: flagged_faultE
      simp: after_faults_1 after_failure_def sleep_def log_line_def emit_def published_on_append logged_append
        sleeps_append requests_append)

lemma faults_shift:
  assumes "\<forall>i<Suc k. P (n + i)"
  shows "P n" and "\<forall>i<k. P (Suc n + i)"
proof -
  from assms have "P (n + 0)"
    by blast
  then show "P n"
    by simp
  show "\<forall>i<k. P (Suc n + i)"
  proof (intro allI impI)
    fix i
    assume "i < k"
    then have "Suc i < Suc k"
      by simp
    with assms have "P (n + Suc i)"
      by blast
    then show "P (Suc n + i)"
      by simp
  qed
qed

lemma after_faults_facts:
  "\<forall>i<k. flagged_fault (gw e (gw_calls w + i)) \<Longrightarrow>
   gw_calls (after_faults e d k w) = gw_calls w + k
   \<and> MQTT_CLIENT_SUB (after_faults e d k w) = MQTT_CLIENT_SUB w
   \<and> published_on t (trace (after_faults e d k w)) = published_on t (trace w)
   \<and> logged WARNING (trace (after_faults e d k w)) = logged WARNING (trace w)
   \<and> sleeps (trace (after_faults e d k w)) = sleeps (trace w) @ replicate k (8 / 10)
   \<and> requests (trace (after_faults e d k w)) = requests (trace w) @ replicate k (Get_transition d)"
proof (induction k arbitrary: w)
  case 0
  show ?case
    by simp
next
  case (Suc k)
  let ?w1 = "after_faults e d 1 w"
  have first: "flagged_fault (gw e (gw_calls w))"
    by (rule faults_shift(1) [OF Suc.prems])
  note one = after_one_fault [OF first, where d = d and t = t]
  have calls: "gw_calls ?w1 = Suc (gw_calls w)"
    using one by blast
  have rest: "\<forall>i<k. flagged_fault (gw e (gw_calls ?w1 + i))"
    unfolding calls by (rule faults_shift(2) [OF Suc.prems])
  from Suc.IH [OF rest] one show ?case
    unfolding after_faults_Suc by (simp add: replicate_app_Cons_same)
qed

lemma loop_after_faults:
  "\<forall>i<k. flagged_fault (gw e (gw_calls w + i)) \<Longrightarrow> retries + k \<le> 5 \<Longrightarrow>
   get_door_status_loop e d retries w
     = get_door_status_loop e d (retries + k) (after_faults e d k w)"
proof (induction k arbitrary: w retries)
  case 0
  show ?case
    by simp
next
  case (Suc k)
  let ?w1 = "after_faults e d 1 w"
  have first: "flagged_fault (gw e (gw_calls w))"
    by (rule faults_shift(1) [OF Suc.prems(1)])
  have calls: "gw_calls ?w1 = Suc (gw_calls w)"
    using after_one_fault [OF first, of d] by blast
  have rest: "\<forall>i<k. flagged_fault (gw e (gw_calls ?w1 + i))"
    unfolding calls by (rule faults_shift(2) [OF Suc.prems(1)])
  from Suc.prems have r5: "retries < 5" and le: "Suc retries + k \<le> 5"
    by simp_all
  have "get_door_status_loop e d retries w = get_door_status_loop e d (Suc retries) ?w1"
    by (rule flagged_pass [OF first r5])
  also have "\<dots> = get_door_status_loop e d (Suc retries + k) (after_faults e d k ?w1)"
    by (rule Suc.IH [OF rest le])
  finally show ?case
    unfolding after_faults_Suc by simp
qed


lemma faulty_gateway_faults:
  "\<forall>i<k. flagged_fault (gw (faulty_gateway k out) (gw_calls first_world + i))"
  by (simp add: faulty_gateway_def flagged_fault_def text_defs sample_defs)

lemma faulty_gateway_then:
  "gw (faulty_gateway k out) (gw_calls first_world + k) = out"
  by (simp add: faulty_gateway_def sample_defs)



text \<open>
  Claim C5. For a numeric door id: whatever the gateway does, the reader sleeps 0.8
  seconds at most 5 times, each sleep followed by one more query (so there are at most 6
  queries, though \<^verbatim>\<open>MAX_RETRIES\<close> is 10). When six queries in a row meet a flagged fault,
  the reader has retried 5 times and returns \<open>(None, -1, None)\<close>. At the first query or
  after \<open>k\<close> flagged faults, with \<open>k\<close> up to 5: a fault whose text has \<^verbatim>\<open>errno 32\<close> or
  \<^verbatim>\<open>broken pipe\<close> is followed by \<^verbatim>\<open>init_bisecur_gw(True)\<close> and the end of the loop, with
  no further sleep or query, and \<open>(None, -1, None)\<close> unless the reinitialisation itself
  exits or raises; any other fault with no \<^verbatim>\<open>last_error\<close> returns \<open>(None, -1, None)\<close> at
  once.
\<close>

theorem get_door_status_retry_policy:
  assumes door: "py_int set_door = Some d"
  shows "(\<exists>k\<le>5. sleeps (trace (snd (get_door_status e set_door w)))
                   = sleeps (trace w) @ replicate k (8 / 10)
               \<and> filter (is_query d) (requests (trace (snd (get_door_status e set_door w))))
                   = filter (is_query d) (requests (trace w)) @ replicate (Suc k) (Get_transition d))
       \<and> ((\<forall>i<6. flagged_fault (gw e (gw_calls w + i))) \<longrightarrow>
              fst (get_door_status e set_door w) = Inr (None, - 1, None)
              \<and> sleeps (trace (snd (get_door_status e set_door w)))
                  = sleeps (trace w) @ replicate 5 (8 / 10)
              \<and> requests (trace (snd (get_door_status e set_door w)))
                  = requests (trace w) @ replicate 6 (Get_transition d))
       \<and> (k \<le> 5 \<and> (\<forall>i<k. flagged_fault (gw e (gw_calls w + i)))
            \<and> gw e (gw_calls w + k) = Raises m c
            \<and> (str_in ''errno 32'' (lower m) \<or> str_in ''broken pipe'' (lower m)) \<longrightarrow>
              get_door_status e set_door w
                = (case init_bisecur_gw e True
                          (log_line ERROR ''ERROR: Restarting due to broken pipe''
                             (after_failure d m c (after_faults e d k w))) of
                     (Inl x, w') \<Rightarrow> (Inl x, w')
                   | (Inr t, w') \<Rightarrow> (Inr (None, - 1, None), w'))
              \<and> sleeps (trace (snd (get_door_status e set_door w)))
                  = sleeps (trace w) @ replicate k (8 / 10)
              \<and> filter (is_query d) (requests (trace (snd (get_door_status e set_door w))))
                  = filter (is_query d) (requests (trace w)) @ replicate (Suc k) (Get_transition d))
       \<and> (k \<le> 5 \<and> (\<forall>i<k. flagged_fault (gw e (gw_calls w + i)))
            \<and> gw e (gw_calls w + k) = Raises m c
            \<and> \<not> (str_in ''errno 32'' (lower m) \<or> str_in ''broken pipe'' (lower m))
            \<and> last_error c = None \<longrightarrow>
              fst (get_door_status e set_door w) = Inr (None, - 1, None)
              \<and> sleeps (trace (snd (get_door_status e set_door w)))
                  = sleeps (trace w) @ replicate k (8 / 10)
              \<and> requests (trace (snd (get_door_status e set_door w)))
                  = requests (trace w) @ replicate (Suc k) (Get_transition d))"
proof -
  have start: "get_door_status e set_door w = get_door_status_loop e d 0 w"
    using door by (simp add: get_door_status_def)
  have lt: "0 < MAX_RETRIES"
    by (simp add: MAX_RETRIES_def)
  have 1: "\<exists>k\<le>5. sleeps (trace (snd (get_door_status e set_door w)))
                   = sleeps (trace w) @ replicate k (8 / 10)
               \<and> filter (is_query d) (requests (trace (snd (get_door_status e set_door w))))
                   = filter (is_query d) (requests (trace w)) @ replicate (Suc k) (Get_transition d)"
    unfolding start using loop_bounded [of 0 5 e d w] lt by auto
  have after: "get_door_status e set_door w = get_door_status_loop e d j (after_faults e d j w)
               \<and> gw_calls (after_faults e d j w) = gw_calls w + j
               \<and> sleeps (trace (after_faults e d j w)) = sleeps (trace w) @ replicate j (8 / 10)
               \<and> requests (trace (after_faults e d j w))
                   = requests (trace w) @ replicate j (Get_transition d)
               \<and> j < MAX_RETRIES"
    if "j \<le> 5" and "\<forall>i<j. flagged_fault (gw e (gw_calls w + i))" for j
    unfolding start
    using that loop_after_faults [OF that(2), of 0 d] after_faults_facts [OF that(2), where d = d]
    by (simp add: MAX_RETRIES_def)
  have stop: "fst (get_door_status e set_door w) = Inr (None, - 1, None)
              \<and> sleeps (trace (snd (get_door_status e set_door w)))
                  = sleeps (trace w) @ replicate j (8 / 10)
              \<and> requests (trace (snd (get_door_status e set_door w)))
                  = requests (trace w) @ replicate (Suc j) (Get_transition d)"
    if few: "j \<le> 5" and faults: "\<forall>i<j. flagged_fault (gw e (gw_calls w + i))"
      and g: "gw e (gw_calls w + j) = Raises m' c'"
      and other: "\<not> (str_in ''errno 32'' (lower m') \<or> str_in ''broken pipe'' (lower m'))"
      and last: "last_error c' = None \<or> j = 5" for j m' c'
  proof -
    let ?wj = "after_faults e d j w"
    note a = after [OF few faults]
    have out: "gw e (gw_calls ?wj) = Raises m' c'"
      using a g by simp
    have ltj: "j < MAX_RETRIES"
      using a by simp
    show ?thesis
      using a other last
      by (auto simp: loop_raises [OF ltj out] check_broken_pipe_def after_failure_def
          log_line_def emit_def requests_append sleeps_append replicate_append_same)
  qed
  have 2: "fst (get_door_status e set_door w) = Inr (None, - 1, None)
              \<and> sleeps (trace (snd (get_door_status e set_door w)))
                  = sleeps (trace w) @ replicate 5 (8 / 10)
              \<and> requests (trace (snd (get_door_status e set_door w)))
                  = requests (trace w) @ replicate 6 (Get_transition d)"
    if six: "\<forall>i<6. flagged_fault (gw e (gw_calls w + i))"
  proof -
    from six have five: "\<forall>i<5. flagged_fault (gw e (gw_calls w + i))"
      by simp
    from six have "flagged_fault (gw e (gw_calls w + 5))"
      by simp
    then obtain m' c' where out: "gw e (gw_calls w + 5) = Raises m' c'"
      and other: "\<not> (str_in ''errno 32'' (lower m') \<or> str_in ''broken pipe'' (lower m'))"
      by (auto elim!: flagged_faultE)
    have le: "(5::nat) \<le> 5"
      by simp
    from stop [OF le five out other] show ?thesis
      by simp
  qed
  have 3: "get_door_status e set_door w
                = (case init_bisecur_gw e True
                          (log_line ERROR ''ERROR: Restarting due to broken pipe''
                             (after_failure d m c (after_faults e d k w))) of
                     (Inl x, w') \<Rightarrow> (Inl x, w')
                   | (Inr t, w') \<Rightarrow> (Inr (None, - 1, None), w'))
              \<and> sleeps (trace (snd (get_door_status e set_door w)))
                  = sleeps (trace w) @ replicate k (8 / 10)
              \<and> filter (is_query d) (requests (trace (snd (get_door_status e set_door w))))
                  = filter (is_query d) (requests (trace w)) @ replicate (Suc k) (Get_transition d)"
    if few: "k \<le> 5" and faults: "\<forall>i<k. flagged_fault (gw e (gw_calls w + i))"
      and g: "gw e (gw_calls w + k) = Raises m c"
      and b: "str_in ''errno 32'' (lower m) \<or> str_in ''broken pipe'' (lower m)"
  proof -
    let ?wk = "after_faults e d k w"
    note a = after [OF few faults]
    have out: "gw e (gw_calls ?wk) = Raises m c"
      using a g by simp
    have ltk: "k < MAX_RETRIES"
      using a by simp
    obtain r w2 where cb: "check_broken_pipe e (lower m) (after_failure d m c ?wk) = (r, w2)"
      by (cases "check_broken_pipe e (lower m) (after_failure d m c ?wk)")
    have s: "sleeps (trace w2) = sleeps (trace w) @ replicate k (8 / 10)"
      using check_broken_pipe_sleeps [of e "lower m" "after_failure d m c ?wk"] cb a
      by (simp add: after_failure_def log_line_def emit_def sleeps_append)
    have q: "filter (is_query d) (requests (trace w2))
               = filter (is_query d) (requests (trace w)) @ replicate (Suc k) (Get_transition d)"
      using check_broken_pipe_queries [of d e "lower m" "after_failure d m c ?wk"] cb a
      by (simp add: after_failure_def log_line_def emit_def requests_append is_query_def
          replicate_append_same)
    have not_false: "r \<noteq> Inr False"
      using cb b by (auto simp: check_broken_pipe_def split: prod.splits sum.splits)
    have run: "get_door_status e set_door w = get_door_status_loop e d k ?wk"
      using a by simp
    have eq: "get_door_status e set_door w
                = (case init_bisecur_gw e True
                          (log_line ERROR ''ERROR: Restarting due to broken pipe''
                             (after_failure d m c ?wk)) of
                     (Inl x, w') \<Rightarrow> (Inl x, w')
                   | (Inr t, w') \<Rightarrow> (Inr (None, - 1, None), w'))"
      unfolding run using b
      by (simp add: loop_raises [OF ltk out] check_broken_pipe_def
          split: prod.splits sum.splits)
    have "snd (get_door_status e set_door w) = w2"
      unfolding run using cb not_false
      by (auto simp: loop_raises [OF ltk out] split: sum.splits bool.splits)
    with eq s q show ?thesis
      by simp
  qed
  have 4: "fst (get_door_status e set_door w) = Inr (None, - 1, None)
              \<and> sleeps (trace (snd (get_door_status e set_door w)))
                  = sleeps (trace w) @ replicate k (8 / 10)
              \<and> requests (trace (snd (get_door_status e set_door w)))
                  = requests (trace w) @ replicate (Suc k) (Get_transition d)"
    if "k \<le> 5" and "\<forall>i<k. flagged_fault (gw e (gw_calls w + i))"
      and "gw e (gw_calls w + k) = Raises m c"
      and "\<not> (str_in ''errno 32'' (lower m) \<or> str_in ''broken pipe'' (lower m))"
      and "last_error c = None"
    using stop [OF that(1,2,3,4)] that(5) by blast
  from 1 2 3 4 show ?thesis
    by blast
qed

theorem get_door_status_retry_policy_witness:
  "py_int ''0'' = Some 0
   \<and> fst (get_door_status (fixed_gateway (Raises ''timed out'' failed_client) 0) ''0'' first_world)
       = Inr (None, - 1, None)
   \<and> sleeps (trace (snd (get_door_status
        (fixed_gateway (Raises ''timed out'' failed_client) 0) ''0'' first_world)))
       = replicate 5 (8 / 10)
   \<and> requests (trace (snd (get_door_status
        (fixed_gateway (Raises ''timed out'' failed_client) 0) ''0'' first_world)))
       = replicate 6 (Get_transition 0)
   \<and> fst (get_door_status (faulty_gateway 1 (Raises ''[Errno 32] Broken pipe'' failed_client))
        ''0'' first_world) = Inr (None, - 1, None)
   \<and> requests (trace (snd (get_door_status
        (faulty_gateway 1 (Raises ''[Errno 32] Broken pipe'' failed_client)) ''0'' first_world)))
       = [Get_transition 0, Get_transition 0, New_client, Login]
   \<and> sleeps (trace (snd (get_door_status
        (faulty_gateway 1 (Raises ''[Errno 32] Broken pipe'' failed_client)) ''0'' first_world)))
       = [8 / 10]
   \<and> fst (get_door_status (faulty_gateway 1 (Raises ''timed out'' idle_client)) ''0'' first_world)
       = Inr (None, - 1, None)
   \<and> requests (trace (snd (get_door_status
        (faulty_gateway 1 (Raises ''timed out'' idle_client)) ''0'' first_world)))
       = [Get_transition 0, Get_transition 0]"
proof -
  let ?e = "fixed_gateway (Raises ''timed out'' failed_client) 0"
  let ?b = "faulty_gateway 1 (Raises ''[Errno 32] Broken pipe'' failed_client)"
  let ?u = "faulty_gateway 1 (Raises ''timed out'' idle_client)"
  have d: "py_int ''0'' = Some 0"
    by (simp add: text_defs)
  have empty: "sleeps (trace first_world) = []" "requests (trace first_world) = []"
    by (simp_all add: sample_defs)
  have six: "\<forall>i<6. flagged_fault (gw ?e (gw_calls first_world + i))"
    by (simp add: flagged_fault_def text_defs sample_defs)
  from get_door_status_retry_policy [OF d, of ?e first_world] six empty
  have a: "fst (get_door_status ?e ''0'' first_world) = Inr (None, - 1, None)
     \<and> sleeps (trace (snd (get_door_status ?e ''0'' first_world))) = replicate 5 (8 / 10)
     \<and> requests (trace (snd (get_door_status ?e ''0'' first_world))) = replicate 6 (Get_transition 0)"
    by simp
  have one: "(1::nat) \<le> 5"
    by simp
  have fb: "\<forall>i<1. flagged_fault (gw ?b (gw_calls first_world + i))"
    by (rule faulty_gateway_faults)
  have gb: "gw ?b (gw_calls first_world + 1) = Raises ''[Errno 32] Broken pipe'' failed_client"
    by (rule faulty_gateway_then)
  have b: "str_in ''errno 32'' (lower ''[Errno 32] Broken pipe'')
           \<or> str_in ''broken pipe'' (lower ''[Errno 32] Broken pipe'')"
    by (simp add: text_defs)
  from get_door_status_retry_policy
         [OF d, of ?b first_world 1 "''[Errno 32] Broken pipe''" failed_client] one fb gb b
  have "get_door_status ?b ''0'' first_world
          = (case init_bisecur_gw ?b True
                    (log_line ERROR ''ERROR: Restarting due to broken pipe''
                       (after_failure 0 ''[Errno 32] Broken pipe'' failed_client
                          (after_faults ?b 0 1 first_world))) of
               (Inl x, w') \<Rightarrow> (Inl x, w')
             | (Inr t, w') \<Rightarrow> (Inr (None, - 1, None), w'))"
    by blast
  then have c: "fst (get_door_status ?b ''0'' first_world) = Inr (None, - 1, None)
     \<and> requests (trace (snd (get_door_status ?b ''0'' first_world)))
         = [Get_transition 0, Get_transition 0, New_client, Login]
     \<and> sleeps (trace (snd (get_door_status ?b ''0'' first_world))) = [8 / 10]"
    by (simp add: init_bisecur_gw_def do_gw_login_def faulty_gateway_def after_faults_1
        after_failure_def run_defs sample_defs)
  have fu: "\<forall>i<1. flagged_fault (gw ?u (gw_calls first_world + i))"
    by (rule faulty_gateway_faults)
  have gu: "gw ?u (gw_calls first_world + 1) = Raises ''timed out'' idle_client"
    by (rule faulty_gateway_then)
  have nb: "\<not> (str_in ''errno 32'' (lower ''timed out'') \<or> str_in ''broken pipe'' (lower ''timed out''))"
    by (simp add: text_defs)
  have nl: "last_error idle_client = None"
    by (simp add: sample_defs)
  from get_door_status_retry_policy
         [OF d, of ?u first_world 1 "''timed out''" idle_client] one fu gu nb nl empty
  have u: "fst (get_door_status ?u ''0'' first_world) = Inr (None, - 1, None)
     \<and> requests (trace (snd (get_door_status ?u ''0'' first_world)))
         = [Get_transition 0, Get_transition 0]"
    by (simp add: numeral_2_eq_2)
  from d a c u show ?thesis
    by simp
qed

section \<open>One pass of the position tracking monitor\<close>

lemma check_mcp_error_door_topics:
  "published_on (MQTT_TOPIC_BASE @ ''/garage_door/'' @ x) (trace (snd (check_mcp_error v w)))
     = published_on (MQTT_TOPIC_BASE @ ''/garage_door/'' @ x) (trace w)"
  by (cases v)
     (simp_all add: check_mcp_error_def Let_def publish_to_mqtt_def emit_def log_line_def
        published_on_append MQTT_TOPIC_BASE_def MQTT_COMMAND_SUBTOPIC_def)

lemma publish_to_mqtt_fields [simp]:
  "LAST_DOOR_STATE (publish_to_mqtt t pl b w) = LAST_DOOR_STATE w"
  "DO_EXIT_THREAD (publish_to_mqtt t pl b w) = DO_EXIT_THREAD w"
  "MQTT_CLIENT_SUB (publish_to_mqtt t pl b w) = MQTT_CLIENT_SUB w"
  "requests (trace (publish_to_mqtt t pl b w)) = requests (trace w)"
  by (simp_all add: publish_to_mqtt_def emit_def log_line_def requests_append)

lemma publish_to_mqtt_published_on:
  "MQTT_CLIENT_SUB w \<Longrightarrow>
   published_on topic (trace (publish_to_mqtt t pl False w))
     = published_on topic (trace w)
       @ (if MQTT_TOPIC_BASE @ ''/'' @ t = topic then [pl] else [])
       @ (if MQTT_TOPIC_BASE @ ''/'' @ t @ ''_ts'' = topic then [Now] else [])"
  by (simp add: publish_to_mqtt_def emit_def published_on_append)

lemma compare_state_cases:
  "compare_state pos current_pos
     = (if pos < current_pos then ''closing''
        else if current_pos < pos then ''opening''
        else if pos = 100 then ''open''
        else if pos = 0 then ''closed''
        else ''unknown'')"
  by (simp add: compare_state_def)

text \<open>
  Claim C9. In a pass of the monitor whose status read gave \<open>(resp, pos, st)\<close>: when
  there is no response the body sets the cancellation flag and leaves the loop, which
  returns with the state of the read as last known state; when there is a response and
  \<^verbatim>\<open>check_mcp_error\<close> returned nothing, the new state is \<open>closing\<close> for a position below
  the previous one, \<open>opening\<close> for one above, and for an equal one \<open>open\<close> at 100,
  \<open>closed\<close> at 0 and \<open>unknown\<close> otherwise; it becomes the last known state, and
  position and state are published on the door's topics.
\<close>

theorem track_iteration_compares_positions:
  assumes read: "get_door_status e set_door (sleep 2 w) = (Inr (resp, pos, st), w1)"
  shows "(resp = None \<longrightarrow>
            track_iteration e set_door current_pos w
              = (Inr (True, st, pos, Some current_pos), w1\<lparr>DO_EXIT_THREAD := True\<rparr>)
            \<and> (track_cond w last_action state current_pos last_pos \<longrightarrow>
                 track_loop (Suc n) e last_action set_door state current_pos last_pos w
                   = Some (Inr st, w1\<lparr>DO_EXIT_THREAD := True, LAST_DOOR_STATE := st\<rparr>)))
       \<and> (\<forall>r. resp = Some r \<and> fst (check_mcp_error (PResp r) w1) = None \<longrightarrow>
            (let derived = (if pos < current_pos then ''closing''
                            else if current_pos < pos then ''opening''
                            else if pos = 100 then ''open''
                            else if pos = 0 then ''closed''
                            else ''unknown'')
             in \<exists>w'. track_iteration e set_door current_pos w
                        = (Inr (False, Some derived, pos, Some current_pos), w')
                  \<and> LAST_DOOR_STATE w' = Some derived
                  \<and> (MQTT_CLIENT_SUB w1 \<longrightarrow>
                       published_on (MQTT_TOPIC_BASE @ ''/garage_door/'' @ set_door @ ''/position'') (trace w')
                         = published_on (MQTT_TOPIC_BASE @ ''/garage_door/'' @ set_door @ ''/position'') (trace w1)
                           @ [Payload (PInt pos)]
                     \<and> published_on (MQTT_TOPIC_BASE @ ''/garage_door/'' @ set_door @ ''/state'') (trace w')
                         = published_on (MQTT_TOPIC_BASE @ ''/garage_door/'' @ set_door @ ''/state'') (trace w1)
                           @ [Payload (PStr derived)])))"
proof (intro conjI impI allI)
  assume none: "resp = None"
  with read show brk: "track_iteration e set_door current_pos w
              = (Inr (True, st, pos, Some current_pos), w1\<lparr>DO_EXIT_THREAD := True\<rparr>)"
    by (simp add: track_iteration_def)
  assume "track_cond w last_action state current_pos last_pos"
  with brk show "track_loop (Suc n) e last_action set_door state current_pos last_pos w
                   = Some (Inr st, w1\<lparr>DO_EXIT_THREAD := True, LAST_DOOR_STATE := st\<rparr>)"
    by simp
next
  fix r
  assume some: "resp = Some r \<and> fst (check_mcp_error (PResp r) w1) = None"
  obtain w2 where chk: "check_mcp_error (PResp r) w1 = (None, w2)"
    using some by (cases "check_mcp_error (PResp r) w1") simp
  have bus: "MQTT_CLIENT_SUB w2 = MQTT_CLIENT_SUB w1"
    using check_mcp_error_trace [of "PResp r" w1] chk by auto
  have pos_topic: "published_on (MQTT_TOPIC_BASE @ ''/garage_door/'' @ set_door @ ''/position'') (trace w2)
      = published_on (MQTT_TOPIC_BASE @ ''/garage_door/'' @ set_door @ ''/position'') (trace w1)"
    using check_mcp_error_door_topics [of "set_door @ ''/position''" "PResp r" w1] chk by simp
  have state_topic: "published_on (MQTT_TOPIC_BASE @ ''/garage_door/'' @ set_door @ ''/state'') (trace w2)
      = published_on (MQTT_TOPIC_BASE @ ''/garage_door/'' @ set_door @ ''/state'') (trace w1)"
    using check_mcp_error_door_topics [of "set_door @ ''/state''" "PResp r" w1] chk by simp
  let ?derived = "compare_state pos current_pos"
  let ?w3 = "publish_to_mqtt (''garage_door/'' @ set_door @ ''/position'') (Payload (PInt pos)) False
               (w2\<lparr>LAST_DOOR_STATE := Some ?derived\<rparr>)"
  let ?w4 = "publish_to_mqtt (''garage_door/'' @ set_door @ ''/state'') (Payload (PStr ?derived)) False ?w3"
  have run: "track_iteration e set_door current_pos w
               = (Inr (False, Some ?derived, pos, Some current_pos), ?w4)"
    using read some chk by (simp add: track_iteration_def)
  have last: "LAST_DOOR_STATE ?w4 = Some ?derived"
    by simp
  have pub_pos: "published_on (MQTT_TOPIC_BASE @ ''/garage_door/'' @ set_door @ ''/position'') (trace ?w4)
                   = published_on (MQTT_TOPIC_BASE @ ''/garage_door/'' @ set_door @ ''/position'') (trace w1)
                     @ [Payload (PInt pos)]"
    if "MQTT_CLIENT_SUB w1"
    using that bus pos_topic by (simp add: publish_to_mqtt_published_on)
  have pub_state: "published_on (MQTT_TOPIC_BASE @ ''/garage_door/'' @ set_door @ ''/state'') (trace ?w4)
                   = published_on (MQTT_TOPIC_BASE @ ''/garage_door/'' @ set_door @ ''/state'') (trace w1)
                     @ [Payload (PStr ?derived)]"
    if "MQTT_CLIENT_SUB w1"
    using that bus state_topic by (simp add: publish_to_mqtt_published_on)
  show "let derived = (if pos < current_pos then ''closing''
                            else if current_pos < pos then ''opening''
                            else if pos = 100 then ''open''
                            else if pos = 0 then ''closed''
                            else ''unknown'')
        in \<exists>w'. track_iteration e set_door current_pos w
                        = (Inr (False, Some derived, pos, Some current_pos), w')
                  \<and> LAST_DOOR_STATE w' = Some derived
                  \<and> (MQTT_CLIENT_SUB w1 \<longrightarrow>
                       published_on (MQTT_TOPIC_BASE @ ''/garage_door/'' @ set_door @ ''/position'') (trace w')
                         = published_on (MQTT_TOPIC_BASE @ ''/garage_door/'' @ set_door @ ''/position'') (trace w1)
                           @ [Payload (PInt pos)]
                     \<and> published_on (MQTT_TOPIC_BASE @ ''/garage_door/'' @ set_door @ ''/state'') (trace w')
                         = published_on (MQTT_TOPIC_BASE @ ''/garage_door/'' @ set_door @ ''/state'') (trace w1)
                           @ [Payload (PStr derived)])"
    unfolding Let_def compare_state_cases [symmetric]
    using run last pub_pos pub_state by blast
qed

theorem track_iteration_compares_positions_witness:
  "fst (track_iteration (steady_gateway 60) ''0'' 40 first_world)
     = Inr (False, Some ''opening'', 60, Some 40)
   \<and> LAST_DOOR_STATE (snd (track_iteration (steady_gateway 60) ''0'' 40 first_world))
       = Some ''opening''
   \<and> fst (track_iteration (fixed_gateway (Returns None idle_client) 0) ''0'' 40 first_world)
       = Inr (True, None, - 1, Some 40)
   \<and> DO_EXIT_THREAD (snd (track_iteration (fixed_gateway (Returns None idle_client) 0) ''0'' 40
        first_world))"
proof -
  let ?r = "response_with (Some 60) None"
  let ?w1 = "snd (get_door_status (steady_gateway 60) ''0'' (sleep 2 first_world))"
  have "fst (get_door_status (steady_gateway 60) ''0'' (sleep 2 first_world))
          = Inr (Some ?r, 60, None)"
    by (simp add: get_door_status_def get_door_status_loop.simps get_door_status_read_def
        percent_of_def text_defs run_defs sample_defs)
  then have read: "get_door_status (steady_gateway 60) ''0'' (sleep 2 first_world)
                     = (Inr (Some ?r, 60, None), ?w1)"
    by (simp add: prod_eq_iff)
  have chk: "fst (check_mcp_error (PResp ?r) ?w1) = None"
    by (rule check_mcp_error_returns_none)
  from track_iteration_compares_positions [OF read, of 40] chk
  have a: "fst (track_iteration (steady_gateway 60) ''0'' 40 first_world)
             = Inr (False, Some ''opening'', 60, Some 40)
           \<and> LAST_DOOR_STATE (snd (track_iteration (steady_gateway 60) ''0'' 40 first_world))
               = Some ''opening''"
    by (auto simp: Let_def)
  let ?e = "fixed_gateway (Returns None idle_client) 0"
  let ?v1 = "snd (get_door_status ?e ''0'' (sleep 2 first_world))"
  have "fst (get_door_status ?e ''0'' (sleep 2 first_world)) = Inr (None, - 1, None)"
    by (simp add: get_door_status_def get_door_status_loop.simps get_door_status_read_def
        percent_of_def text_defs run_defs sample_defs)
  then have read': "get_door_status ?e ''0'' (sleep 2 first_world) = (Inr (None, - 1, None), ?v1)"
    by (simp add: prod_eq_iff)
  from track_iteration_compares_positions [OF read', of 40]
  have b: "fst (track_iteration ?e ''0'' 40 first_world) = Inr (True, None, - 1, Some 40)
           \<and> DO_EXIT_THREAD (snd (track_iteration ?e ''0'' 40 first_world))"
    by simp
  from a b show ?thesis
    by simp
qed





section \<open>The loop of the position tracking monitor\<close>




end
